theory Spec2Isabelle
  imports Complex_Main "HOL-Library.AList"
begin

section \<open>Python values, errors and containers\<close>

text \<open>
  The module \<open>mloptimizer/genoptimizer.py\<close> is embedded function by function.
  Exceptions are values of the type \<open>error\<close>; a function that can raise returns
  \<open>error + 'a\<close> with \<open>Inl\<close> for the exception.

  A gene slot of an individual holds a raw integer, or after decoding an integer, a float
  or \<open>None\<close>.  Integers are unbounded, as in Python.  A float is the real number it
  stands for: the rounding of a result to the nearest double is left out.  What a double
  cannot hold at all is modelled: the conversion of an integer that is too large raises
  \<open>OverflowError\<close>, and a power that is too small to be a double is \<open>0.0\<close>.
\<close>

datatype error =
  ZeroDivisionError | TypeError | KeyError string | IndexError | AttributeError | ValueError
  | OverflowError

datatype pyval = PInt int | PFloat real | PNone

text \<open>The number a value denotes, when it is a number.\<close>

fun num_of :: "pyval \<Rightarrow> real option" where
  "num_of (PInt n) = Some (real_of_int n)"
| "num_of (PFloat r) = Some r"
| "num_of PNone = None"

text \<open>Python's \<open>int(value)\<close>: the identity on integers, truncation towards zero on
  floats, \<open>TypeError\<close> on \<open>None\<close>.\<close>

fun py_int :: "pyval \<Rightarrow> error + int" where
  "py_int (PInt n) = Inr n"
| "py_int (PFloat r) = Inr (if 0 \<le> r then \<lfloor>r\<rfloor> else \<lceil>r\<rceil>)"
| "py_int PNone = Inl TypeError"

text \<open>
  The conversion of an integer to a float, \<open>float(n)\<close> and the implicit conversion of an
  integer operand of a float operation.  It rounds to the nearest double, ties to even; the
  largest double is \<open>2 ** 1024 - 2 ** 971\<close>, so an integer of magnitude
  \<open>2 ** 1024 - 2 ** 970\<close> or more would round to \<open>2 ** 1024\<close> and the conversion raises
  \<open>OverflowError\<close>.
\<close>

definition float_bound :: int where
  "float_bound = 2 ^ 1024 - 2 ^ 970"

definition py_float :: "int \<Rightarrow> error + real" where
  "py_float n = (if \<bar>n\<bar> < float_bound then Inr (real_of_int n) else Inl OverflowError)"

text \<open>\<open>x / d\<close> for a float \<open>x\<close> and an integer \<open>d\<close>: the integer is converted, then a zero
  divisor raises \<open>ZeroDivisionError\<close>.\<close>

definition float_truediv_int :: "real \<Rightarrow> int \<Rightarrow> error + real" where
  "float_truediv_int x d =
     (case py_float d of
        Inl e \<Rightarrow> Inl e
      | Inr y \<Rightarrow> if y = 0 then Inl ZeroDivisionError else Inr (x / y))"

text \<open>
  \<open>10 ** e\<close> for an integer \<open>e\<close>.  A non-negative exponent gives the integer power.  A
  negative exponent gives a float: both operands are converted (the exponent may be too
  large to convert), and the power \<open>10.0 ** e\<close> underflows to \<open>0.0\<close> when \<open>e \<le> -324\<close>
  (the smallest positive double is about \<open>4.9e-324\<close>), which Python returns without
  raising.
\<close>

definition pow_10 :: "int \<Rightarrow> error + pyval" where
  "pow_10 e =
     (if 0 \<le> e then Inr (PInt (10 ^ nat e))
      else (case py_float e of
              Inl err \<Rightarrow> Inl err
            | Inr y \<Rightarrow> Inr (PFloat (if e \<le> - 324 then 0 else 1 / 10 ^ nat (- e)))))"

text \<open>
  A Python \<open>dict\<close> with string keys is an association list in insertion order whose keys
  are pairwise distinct.  Item assignment \<open>d[k] = v\<close> is \<^const>\<open>AList.update\<close>: it
  replaces the value of a key that is present and appends a new key at the end.
  \<open>d[k]\<close> raises \<open>KeyError\<close> on a missing key; \<open>xs[i]\<close> on a list raises
  \<open>IndexError\<close> beyond its length (every index of the module comes from \<open>range\<close>,
  so none is negative).
\<close>

type_synonym 'v dict = "(string \<times> 'v) list"

definition keys :: "'v dict \<Rightarrow> string list" where
  "keys d = map fst d"

definition getitem :: "'v dict \<Rightarrow> string \<Rightarrow> error + 'v" where
  "getitem d k = (case map_of d k of None \<Rightarrow> Inl (KeyError k) | Some v \<Rightarrow> Inr v)"

definition list_getitem :: "'a list \<Rightarrow> nat \<Rightarrow> error + 'a" where
  "list_getitem xs i = (if i < length xs then Inr (xs ! i) else Inl IndexError)"

text \<open>\<open>dict\<close> has no method \<open>append\<close>: the attribute lookup \<open>d.append\<close> raises
  \<open>AttributeError\<close> before any argument is evaluated.\<close>

definition dict_append :: "'v dict \<Rightarrow> 'v \<Rightarrow> error + 'v dict" where
  "dict_append d x = Inl AttributeError"

section \<open>Param\<close>

text \<open>The field \<open>type\<close> holds the Python type object \<open>int\<close> or \<open>float\<close>, or a string
  tag such as \<open>"nexp"\<close> and \<open>"x10"\<close>.\<close>

datatype param_type = IntType | FloatType | Tag string

record Param =
  name :: string
  minValue :: int
  maxValue :: int
  type :: param_type
  denominator :: int
  values_str :: "string list"

text \<open>\<open>Param.__init__\<close>; the default of \<open>denominator\<close> is 100 and is written out at
  each call below, \<open>values_str\<close> is always left at its default, the empty list.\<close>

definition Param_init :: "string \<Rightarrow> int \<Rightarrow> int \<Rightarrow> param_type \<Rightarrow> int \<Rightarrow> Param" where
  "Param_init n lo hi t d =
     \<lparr>name = n, minValue = lo, maxValue = hi, type = t, denominator = d, values_str = []\<rparr>"

text \<open>\<open>Param.correct\<close>.  In \<open>float(value)/self.denominator\<close> the conversion of
  \<open>value\<close> comes first, then the division with its conversion of the denominator and its
  zero check.\<close>

definition correct :: "Param \<Rightarrow> pyval \<Rightarrow> error + pyval" where
  "correct self value =
     (case py_int value of
        Inl e \<Rightarrow> Inl e
      | Inr v \<Rightarrow>
          if type self = IntType then Inr (PInt v)
          else if type self = FloatType then
            (case py_float v of
               Inl e \<Rightarrow> Inl e
             | Inr x \<Rightarrow>
                 (case float_truediv_int x (denominator self) of
                    Inl e \<Rightarrow> Inl e
                  | Inr q \<Rightarrow> Inr (PFloat q)))
          else if type self = Tag ''nexp'' then pow_10 (- v)
          else if type self = Tag ''x10'' then Inr (PInt (v * 10))
          else Inr PNone)"

text \<open>\<open>Param.__eq__\<close>.\<close>

definition Param_eq :: "Param \<Rightarrow> Param \<Rightarrow> bool" where
  "Param_eq self other_param =
     (name self = name other_param \<and> minValue self = minValue other_param \<and>
      type self = type other_param \<and> denominator self = denominator other_param)"

section \<open>The default parameter tables\<close>

datatype optimizer_class =
  TreeOptimizer | ForestOptimizer | ExtraTreesOptimizer | GradientBoostingOptimizer
  | XGBClassifierOptimizer | SVCOptimizer | MLPOptimizer

definition TreeOptimizer_get_default_params :: "Param dict" where
  "TreeOptimizer_get_default_params =
     [(''min_samples_split'', Param_init ''min_samples_split'' 2 50 IntType 100),
      (''min_samples_leaf'', Param_init ''min_samples_leaf'' 1 20 IntType 100),
      (''max_depth'', Param_init ''max_depth'' 2 50 IntType 100),
      (''min_impurity_decrease'', Param_init ''min_impurity_decrease'' 0 150 FloatType 1000),
      (''ccp_alpha'', Param_init ''ccp_alpha'' 0 300 FloatType 100000)]"

definition ForestOptimizer_get_default_params :: "Param dict" where
  "ForestOptimizer_get_default_params =
     [(''max_features'', Param_init ''max_features'' 75 90 FloatType 100),
      (''n_estimators'', Param_init ''n_estimators'' 50 250 IntType 100),
      (''max_depth'', Param_init ''max_depth'' 3 40 IntType 100),
      (''max_samples'', Param_init ''max_samples'' 20 50 FloatType 100)]"

definition XGBClassifierOptimizer_get_default_params :: "Param dict" where
  "XGBClassifierOptimizer_get_default_params =
     [(''colsample_bytree'', Param_init ''colsample_bytree'' 3 10 FloatType 10),
      (''gamma'', Param_init ''gamma'' 0 20 IntType 100),
      (''learning_rate'', Param_init ''learning_rate'' 1 100 FloatType 1000),
      (''max_depth'', Param_init ''max_depth'' 3 30 IntType 100),
      (''n_estimators'', Param_init ''n_estimators'' 100 500 IntType 100),
      (''subsample'', Param_init ''subsample'' 700 1000 FloatType 1000),
      (''scale_pos_weight'', Param_init ''scale_pos_weight'' 15 40 FloatType 100)]"

definition SVCOptimizer_get_default_params :: "Param dict" where
  "SVCOptimizer_get_default_params =
     [(''C'', Param_init ''C'' 1 10000 FloatType 10),
      (''degree'', Param_init ''degree'' 0 6 IntType 100),
      (''gamma'', Param_init ''gamma'' 10 100000000 FloatType 100)]"

definition MLPOptimizer_get_default_params :: "Param dict" where
  "MLPOptimizer_get_default_params =
     [(''learning_rate_init'', Param_init ''lr'' 1 6 (Tag ''nexp'') 100),
      (''alpha'', Param_init ''alpha'' 1 6 (Tag ''nexp'') 100),
      (''layer1'', Param_init ''layer1'' 5 30 (Tag ''x10'') 100),
      (''layer2'', Param_init ''layer1'' 1 20 (Tag ''x10'') 100),
      (''layer3'', Param_init ''layer1'' 1 10 (Tag ''x10'') 100)]"

text \<open>Method resolution: \<open>ExtraTreesOptimizer\<close> and \<open>GradientBoostingOptimizer\<close>
  inherit \<open>get_default_params\<close> from \<open>ForestOptimizer\<close>.\<close>

fun get_default_params :: "optimizer_class \<Rightarrow> Param dict" where
  "get_default_params TreeOptimizer = TreeOptimizer_get_default_params"
| "get_default_params ForestOptimizer = ForestOptimizer_get_default_params"
| "get_default_params ExtraTreesOptimizer = ForestOptimizer_get_default_params"
| "get_default_params GradientBoostingOptimizer = ForestOptimizer_get_default_params"
| "get_default_params XGBClassifierOptimizer = XGBClassifierOptimizer_get_default_params"
| "get_default_params SVCOptimizer = SVCOptimizer_get_default_params"
| "get_default_params MLPOptimizer = MLPOptimizer_get_default_params"

section \<open>BaseOptimizer: the resolved parameter table\<close>

text \<open>The loop of \<open>BaseOptimizer.get_params\<close> over \<open>default_params.keys()\<close>, with the
  dictionary \<open>params\<close> built so far.\<close>

fun get_params_loop :: "Param dict \<Rightarrow> Param dict \<Rightarrow> string list \<Rightarrow> Param dict \<Rightarrow> error + Param dict" where
  "get_params_loop custom default_params [] params = Inr params"
| "get_params_loop custom default_params (k # ks) params =
     (case map_of custom k of
        Some c \<Rightarrow> get_params_loop custom default_params ks (AList.update k c params)
      | None \<Rightarrow>
          (case getitem default_params k of
             Inl e \<Rightarrow> Inl e
           | Inr p \<Rightarrow> get_params_loop custom default_params ks (AList.update k p params)))"

definition BaseOptimizer_get_params :: "Param dict \<Rightarrow> Param dict \<Rightarrow> error + Param dict" where
  "BaseOptimizer_get_params custom default_params =
     get_params_loop custom default_params (keys default_params) []"

text \<open>\<open>GradientBoostingOptimizer.get_params\<close>: the inherited table, then two calls of
  \<open>params.append\<close> on it.\<close>

definition GradientBoostingOptimizer_get_params :: "Param dict \<Rightarrow> error + Param dict" where
  "GradientBoostingOptimizer_get_params custom =
     (case BaseOptimizer_get_params custom (get_default_params GradientBoostingOptimizer) of
        Inl e \<Rightarrow> Inl e
      | Inr params \<Rightarrow>
          (case dict_append params (Param_init ''learning_rate'' 1 10000 FloatType 1000000) of
             Inl e \<Rightarrow> Inl e
           | Inr params1 \<Rightarrow> dict_append params1 (Param_init ''subsample'' 0 100 FloatType 100)))"

definition get_params :: "optimizer_class \<Rightarrow> Param dict \<Rightarrow> error + Param dict" where
  "get_params c custom =
     (if c = GradientBoostingOptimizer then GradientBoostingOptimizer_get_params custom
      else BaseOptimizer_get_params custom (get_default_params c))"

text \<open>An optimizer object: its class, and the fields \<open>custom_params\<close> and \<open>params\<close>
  that \<open>__init__\<close> sets (the dataset fields and \<open>eval_dict\<close> are read by no function
  modelled here).\<close>

record optimizer =
  cls :: optimizer_class
  custom_params :: "Param dict"
  params :: "Param dict"

definition BaseOptimizer_init :: "optimizer_class \<Rightarrow> Param dict \<Rightarrow> error + optimizer" where
  "BaseOptimizer_init c custom =
     (case get_params c custom of
        Inl e \<Rightarrow> Inl e
      | Inr ps \<Rightarrow> Inr \<lparr>cls = c, custom_params = custom, params = ps\<rparr>)"

section \<open>BaseOptimizer: individuals and classifiers\<close>

text \<open>The loop of \<open>individual2dict\<close> over \<open>range(len(keys))\<close>: \<open>ks\<close> are the keys from
  position \<open>i\<close> on, \<open>individual_dict\<close> is the dictionary built so far.\<close>

fun individual2dict_loop :: "string list \<Rightarrow> nat \<Rightarrow> pyval list \<Rightarrow> pyval dict \<Rightarrow> error + pyval dict" where
  "individual2dict_loop [] i individual individual_dict = Inr individual_dict"
| "individual2dict_loop (k # ks) i individual individual_dict =
     (case list_getitem individual i of
        Inl e \<Rightarrow> Inl e
      | Inr g \<Rightarrow> individual2dict_loop ks (Suc i) individual (AList.update k g individual_dict))"

definition individual2dict :: "optimizer \<Rightarrow> pyval list \<Rightarrow> error + pyval dict" where
  "individual2dict self individual = individual2dict_loop (keys (params self)) 0 individual []"

text \<open>Reading a dictionary back in a given key order, \<open>[d[k] for k in ks]\<close>.\<close>

fun values_in_order :: "'v dict \<Rightarrow> string list \<Rightarrow> error + 'v list" where
  "values_in_order d [] = Inr []"
| "values_in_order d (k # ks) =
     (case getitem d k of
        Inl e \<Rightarrow> Inl e
      | Inr v \<Rightarrow> (case values_in_order d ks of Inl e \<Rightarrow> Inl e | Inr vs \<Rightarrow> Inr (v # vs)))"

text \<open>
  A classifier of the external libraries is the name of its class and the keyword
  arguments of the constructor call, in the order of the call: the constructors only
  record their arguments.  An argument is a constant, an item \<open>individual_dict[k]\<close>, or
  a tuple of such items; the arguments are evaluated from left to right and the first
  missing key raises.
\<close>

datatype pyarg = Val pyval | Str string | Bool bool | Tuple "pyval list"

datatype classifier = Classifier string "(string \<times> pyarg) list"

datatype argexpr = Const pyarg | Item string | Items "string list"

fun eval_arg :: "pyval dict \<Rightarrow> argexpr \<Rightarrow> error + pyarg" where
  "eval_arg d (Const c) = Inr c"
| "eval_arg d (Item k) = (case getitem d k of Inl e \<Rightarrow> Inl e | Inr v \<Rightarrow> Inr (Val v))"
| "eval_arg d (Items ks) = (case values_in_order d ks of Inl e \<Rightarrow> Inl e | Inr vs \<Rightarrow> Inr (Tuple vs))"

fun eval_kwargs :: "pyval dict \<Rightarrow> (string \<times> argexpr) list \<Rightarrow> error + (string \<times> pyarg) list" where
  "eval_kwargs d [] = Inr []"
| "eval_kwargs d ((n, a) # kws) =
     (case eval_arg d a of
        Inl e \<Rightarrow> Inl e
      | Inr v \<Rightarrow> (case eval_kwargs d kws of Inl e \<Rightarrow> Inl e | Inr vs \<Rightarrow> Inr ((n, v) # vs)))"

definition build :: "optimizer \<Rightarrow> pyval list \<Rightarrow> string \<Rightarrow> (string \<times> argexpr) list \<Rightarrow> error + classifier" where
  "build self individual cname kws =
     (case individual2dict self individual of
        Inl e \<Rightarrow> Inl e
      | Inr individual_dict \<Rightarrow>
          (case eval_kwargs individual_dict kws of
             Inl e \<Rightarrow> Inl e
           | Inr args \<Rightarrow> Inr (Classifier cname args)))"

definition TreeOptimizer_get_clf :: "optimizer \<Rightarrow> pyval list \<Rightarrow> error + classifier" where
  "TreeOptimizer_get_clf self individual =
     build self individual ''DecisionTreeClassifier''
       [(''criterion'', Const (Str ''gini'')),
        (''class_weight'', Const (Str ''balanced'')),
        (''splitter'', Const (Str ''best'')),
        (''max_features'', Const (Val PNone)),
        (''max_depth'', Item ''max_depth''),
        (''min_samples_split'', Item ''min_samples_split''),
        (''min_samples_leaf'', Item ''min_samples_leaf''),
        (''min_impurity_decrease'', Item ''min_impurity_decrease''),
        (''ccp_alpha'', Item ''ccp_alpha''),
        (''max_leaf_nodes'', Const (Val PNone)),
        (''random_state'', Const (Val PNone))]"

definition ForestOptimizer_get_clf :: "optimizer \<Rightarrow> pyval list \<Rightarrow> error + classifier" where
  "ForestOptimizer_get_clf self individual =
     build self individual ''RandomForestClassifier''
       [(''n_estimators'', Item ''n_estimators''),
        (''criterion'', Const (Str ''gini'')),
        (''max_depth'', Item ''max_depth''),
        (''max_samples'', Item ''max_samples''),
        (''min_weight_fraction_leaf'', Const (Val (PInt 0))),
        (''max_features'', Item ''max_features''),
        (''max_leaf_nodes'', Const (Val PNone)),
        (''bootstrap'', Const (Bool True)),
        (''oob_score'', Const (Bool True)),
        (''n_jobs'', Const (Val (PInt (- 1)))),
        (''random_state'', Const (Val PNone)),
        (''verbose'', Const (Val (PInt 0))),
        (''warm_start'', Const (Bool False)),
        (''class_weight'', Const (Str ''balanced''))]"

definition ExtraTreesOptimizer_get_clf :: "optimizer \<Rightarrow> pyval list \<Rightarrow> error + classifier" where
  "ExtraTreesOptimizer_get_clf self individual =
     build self individual ''ExtraTreesClassifier''
       [(''n_estimators'', Item ''n_estimators''),
        (''criterion'', Const (Str ''gini'')),
        (''max_depth'', Item ''max_depth''),
        (''min_samples_split'', Item ''min_samples_split''),
        (''min_samples_leaf'', Item ''min_samples_leaf''),
        (''min_weight_fraction_leaf'', Const (Val (PInt 0))),
        (''max_features'', Item ''max_features''),
        (''max_leaf_nodes'', Const (Val PNone)),
        (''bootstrap'', Const (Bool False)),
        (''oob_score'', Const (Bool False)),
        (''n_jobs'', Const (Val (PInt (- 1)))),
        (''random_state'', Const (Val PNone)),
        (''verbose'', Const (Val (PInt 0))),
        (''warm_start'', Const (Bool False)),
        (''class_weight'', Const (Str ''balanced''))]"

definition GradientBoostingOptimizer_get_clf :: "optimizer \<Rightarrow> pyval list \<Rightarrow> error + classifier" where
  "GradientBoostingOptimizer_get_clf self individual =
     build self individual ''GradientBoostingClassifier''
       [(''n_estimators'', Item ''n_estimators''),
        (''criterion'', Const (Str ''friedman_mse'')),
        (''max_depth'', Item ''max_depth''),
        (''min_samples_split'', Item ''min_samples_split''),
        (''min_samples_leaf'', Item ''min_samples_leaf''),
        (''min_weight_fraction_leaf'', Const (Val (PInt 0))),
        (''max_features'', Item ''max_features''),
        (''max_leaf_nodes'', Const (Val PNone)),
        (''random_state'', Const (Val PNone)),
        (''verbose'', Const (Val (PInt 0))),
        (''warm_start'', Const (Bool False)),
        (''learning_rate'', Item ''learning_rate''),
        (''subsample'', Item ''subsample'')]"

definition XGBClassifierOptimizer_get_clf :: "optimizer \<Rightarrow> pyval list \<Rightarrow> error + classifier" where
  "XGBClassifierOptimizer_get_clf self individual =
     build self individual ''XGBClassifier''
       [(''base_score'', Const (Val (PFloat (5 / 10)))),
        (''booster'', Const (Str ''gbtree'')),
        (''colsample_bytree'', Item ''colsample_bytree''),
        (''colsample_bylevel'', Const (Val (PInt 1))),
        (''gamma'', Item ''gamma''),
        (''importance_type'', Const (Str ''gain'')),
        (''learning_rate'', Item ''learning_rate''),
        (''max_delta_step'', Const (Val (PInt 0))),
        (''max_depth'', Item ''max_depth''),
        (''min_child_weight'', Const (Val (PInt 1))),
        (''missing'', Const (Val PNone)),
        (''n_estimators'', Item ''n_estimators''),
        (''n_jobs'', Const (Val (PInt (- 1)))),
        (''nthread'', Const (Val PNone)),
        (''objective'', Const (Str ''binary:logistic'')),
        (''random_state'', Const (Val (PInt 0))),
        (''reg_alpha'', Const (Val (PInt 0))),
        (''reg_lambda'', Const (Val (PInt 1))),
        (''scale_pos_weight'', Item ''scale_pos_weight''),
        (''seed'', Const (Val PNone)),
        (''silent'', Const (Bool False)),
        (''subsample'', Item ''subsample'')]"

definition SVCOptimizer_get_clf :: "optimizer \<Rightarrow> pyval list \<Rightarrow> error + classifier" where
  "SVCOptimizer_get_clf self individual =
     build self individual ''SVC''
       [(''C'', Item ''C''),
        (''cache_size'', Const (Val (PInt 8000000))),
        (''class_weight'', Const (Str ''balanced'')),
        (''coef0'', Const (Val (PFloat 0))),
        (''decision_function_shape'', Const (Str ''ovr'')),
        (''degree'', Item ''degree''),
        (''gamma'', Item ''gamma''),
        (''kernel'', Const (Str ''rbf'')),
        (''max_iter'', Const (Val (PInt 100000))),
        (''probability'', Const (Bool False)),
        (''random_state'', Const (Val PNone)),
        (''shrinking'', Const (Bool True)),
        (''tol'', Const (Val (PFloat (1 / 1000)))),
        (''verbose'', Const (Bool False))]"

definition MLPOptimizer_get_clf :: "optimizer \<Rightarrow> pyval list \<Rightarrow> error + classifier" where
  "MLPOptimizer_get_clf self individual =
     build self individual ''MLPClassifier''
       [(''activation'', Const (Str ''relu'')),
        (''solver'', Const (Str ''adam'')),
        (''learning_rate'', Const (Str ''constant'')),
        (''hidden_layer_sizes'', Items [''layer1'', ''layer2'', ''layer3'']),
        (''validation_fraction'', Const (Val (PFloat (1 / 10)))),
        (''early_stopping'', Const (Bool True)),
        (''max_iter'', Const (Val (PInt 300))),
        (''learning_rate_init'', Item ''learning_rate_init''),
        (''alpha'', Item ''alpha''),
        (''batch_size'', Const (Val (PInt 200)))]"

text \<open>\<open>self.get_clf\<close>, dispatched on the class of \<open>self\<close>.\<close>

definition get_clf :: "optimizer \<Rightarrow> pyval list \<Rightarrow> error + classifier" where
  "get_clf self individual =
     (case cls self of
        TreeOptimizer \<Rightarrow> TreeOptimizer_get_clf self individual
      | ForestOptimizer \<Rightarrow> ForestOptimizer_get_clf self individual
      | ExtraTreesOptimizer \<Rightarrow> ExtraTreesOptimizer_get_clf self individual
      | GradientBoostingOptimizer \<Rightarrow> GradientBoostingOptimizer_get_clf self individual
      | XGBClassifierOptimizer \<Rightarrow> XGBClassifierOptimizer_get_clf self individual
      | SVCOptimizer \<Rightarrow> SVCOptimizer_get_clf self individual
      | MLPOptimizer \<Rightarrow> MLPOptimizer_get_clf self individual)"

section \<open>BaseOptimizer: decoding, evaluation and the search\<close>

text \<open>
  \<open>get_corrected_clf\<close> copies its argument and assigns to the items of the copy, so
  list objects live in a store: a reference is an index into the list of all list
  objects, and \<open>copy.copy\<close> allocates a new object with the same items.  A reference
  handed to a function is valid (less than the length of the store).
\<close>

type_synonym ref = nat

type_synonym store = "pyval list list"

definition copy_copy :: "ref \<Rightarrow> store \<Rightarrow> ref \<times> store" where
  "copy_copy a h = (length h, h @ [h ! a])"

text \<open>The loop of \<open>get_corrected_clf\<close>: \<open>individual[i] =
  self.params[keys[i]].correct(individual[i])\<close> for the keys from position \<open>i\<close> on,
  where \<open>individual\<close> is the reference \<open>b\<close>.  It returns the exception raised, if any,
  and the store.\<close>

fun correct_loop :: "Param dict \<Rightarrow> string list \<Rightarrow> nat \<Rightarrow> ref \<Rightarrow> store \<Rightarrow> error option \<times> store" where
  "correct_loop ps [] i b h = (None, h)"
| "correct_loop ps (k # ks) i b h =
     (case getitem ps k of
        Inl e \<Rightarrow> (Some e, h)
      | Inr p \<Rightarrow>
          (case list_getitem (h ! b) i of
             Inl e \<Rightarrow> (Some e, h)
           | Inr g \<Rightarrow>
               (case correct p g of
                  Inl e \<Rightarrow> (Some e, h)
                | Inr v \<Rightarrow> correct_loop ps ks (Suc i) b (h[b := (h ! b)[i := v]]))))"

definition get_corrected_clf :: "optimizer \<Rightarrow> ref \<Rightarrow> store \<Rightarrow> (error + classifier) \<times> store" where
  "get_corrected_clf self individual_in h =
     (case copy_copy individual_in h of
        (individual, h1) \<Rightarrow>
          (case correct_loop (params self) (keys (params self)) 0 individual h1 of
             (Some e, h2) \<Rightarrow> (Inl e, h2)
           | (None, h2) \<Rightarrow> (get_clf self (h2 ! individual), h2)))"

text \<open>\<open>evaluate_clf\<close>; \<open>KFoldStratifiedAccuracy\<close> belongs to another module and is a
  parameter: it maps the classifier to the mean and the standard deviation of the
  accuracy, or raises.\<close>

definition evaluate_clf ::
  "(classifier \<Rightarrow> error + real \<times> real) \<Rightarrow> optimizer \<Rightarrow> ref \<Rightarrow> store \<Rightarrow> (error + real \<times> real) \<times> store" where
  "evaluate_clf KFoldStratifiedAccuracy self individual h =
     (case get_corrected_clf self individual h of
        (Inl e, h1) \<Rightarrow> (Inl e, h1)
      | (Inr clf, h1) \<Rightarrow> (KFoldStratifiedAccuracy clf, h1))"

text \<open>The loop of \<open>optimize_clf\<close> that logs \<open>str(self.get_clf(hof[i]))\<close> for every member
  of the Hall of Fame; it returns the exception raised, if any.\<close>

fun report_loop :: "optimizer \<Rightarrow> ref list \<Rightarrow> store \<Rightarrow> error option" where
  "report_loop self [] h = None"
| "report_loop self (r # rs) h =
     (case get_clf self (h ! r) of Inl e \<Rightarrow> Some e | Inr clf \<Rightarrow> report_loop self rs h)"

text \<open>
  \<open>optimize_clf\<close>.  The evolutionary toolkit is a parameter \<open>evolve\<close>: it stands for
  the creation of the population and the run of \<open>eaSimple\<close> with the registered
  operators, is handed the population size, the number of generations and the registered
  fitness function \<open>evaluate_clf\<close>, and returns the Hall of Fame as a list of references,
  best first.
\<close>

definition optimize_clf ::
  "(nat \<Rightarrow> nat \<Rightarrow> (ref \<Rightarrow> store \<Rightarrow> (error + real \<times> real) \<times> store) \<Rightarrow> store \<Rightarrow> (error + ref list) \<times> store)
   \<Rightarrow> (classifier \<Rightarrow> error + real \<times> real) \<Rightarrow> optimizer \<Rightarrow> nat \<Rightarrow> nat \<Rightarrow> store
   \<Rightarrow> (error + classifier) \<times> store" where
  "optimize_clf evolve KFoldStratifiedAccuracy self population generations h =
     (case evolve population generations (evaluate_clf KFoldStratifiedAccuracy self) h of
        (Inl e, h1) \<Rightarrow> (Inl e, h1)
      | (Inr hof, h1) \<Rightarrow>
          (case report_loop self hof h1 of
             Some e \<Rightarrow> (Inl e, h1)
           | None \<Rightarrow>
               (case list_getitem hof 0 of
                  Inl e \<Rightarrow> (Inl e, h1)
                | Inr best \<Rightarrow> (get_clf self (h1 ! best), h1))))"

section \<open>BaseOptimizer: random individuals\<close>

text \<open>
  \<open>random.randint(a, b)\<close> raises \<open>ValueError\<close> on an empty range and otherwise returns
  an integer of \<open>[a, b]\<close>.  The state of the generator is a sequence of natural numbers
  \<open>rng\<close>, one per draw; the draw \<open>r\<close> selects \<open>a + r mod (b - a + 1)\<close>, so every
  integer of the range is the result of some draw.
\<close>

definition randint :: "int \<Rightarrow> int \<Rightarrow> nat \<Rightarrow> error + int" where
  "randint a b r = (if b < a then Inl ValueError else Inr (a + int r mod (b - a + 1)))"

text \<open>The loop of \<open>init_individual\<close> over \<open>self.params.keys()\<close>: \<open>ks\<close> are the keys still
  to visit, \<open>table\<close> is \<open>self.params\<close>, \<open>i\<close> counts the draws made, \<open>ps\<close> is the
  list built so far.\<close>

fun init_individual_loop :: "Param dict \<Rightarrow> string list \<Rightarrow> (nat \<Rightarrow> nat) \<Rightarrow> nat \<Rightarrow> int list \<Rightarrow> error + int list" where
  "init_individual_loop table [] rng i ps = Inr ps"
| "init_individual_loop table (k # ks) rng i ps =
     (case getitem table k of
        Inl e \<Rightarrow> Inl e
      | Inr p \<Rightarrow>
          (case randint (minValue p) (maxValue p) (rng i) of
             Inl e \<Rightarrow> Inl e
           | Inr g \<Rightarrow> init_individual_loop table ks rng (Suc i) (ps @ [g])))"

definition init_individual :: "optimizer \<Rightarrow> (int list \<Rightarrow> 'ind) \<Rightarrow> (nat \<Rightarrow> nat) \<Rightarrow> error + 'ind" where
  "init_individual self pcls rng =
     (case init_individual_loop (params self) (keys (params self)) rng 0 [] of
        Inl e \<Rightarrow> Inl e
      | Inr ps \<Rightarrow> Inr (pcls ps))"

section \<open>Auxiliary notions\<close>

text \<open>The list object that \<open>get_corrected_clf\<close> builds and hands to \<open>get_clf\<close>: the
  copy, after the loop.  It is the object allocated by \<open>copy.copy\<close>, at the first free
  reference of the store.\<close>

definition corrected_individual :: "optimizer \<Rightarrow> ref \<Rightarrow> store \<Rightarrow> pyval list" where
  "corrected_individual self individual_in h = snd (get_corrected_clf self individual_in h) ! length h"

text \<open>
  A run of the toolkit whose population is a fixed list of individuals: it evaluates the
  fitness of each of them once, stops at the first exception, and returns them as the Hall
  of Fame.  The registered fitness function is the only way it touches the optimizer.
\<close>

fun evaluate_all ::
  "(ref \<Rightarrow> store \<Rightarrow> (error + real \<times> real) \<times> store) \<Rightarrow> ref list \<Rightarrow> store \<Rightarrow> error option \<times> store" where
  "evaluate_all evaluate [] h = (None, h)"
| "evaluate_all evaluate (r # rs) h =
     (case evaluate r h of
        (Inl e, h1) \<Rightarrow> (Some e, h1)
      | (Inr fitness, h1) \<Rightarrow> evaluate_all evaluate rs h1)"

definition evolve_fixed ::
  "ref list \<Rightarrow> nat \<Rightarrow> nat \<Rightarrow> (ref \<Rightarrow> store \<Rightarrow> (error + real \<times> real) \<times> store) \<Rightarrow> store
   \<Rightarrow> (error + ref list) \<times> store" where
  "evolve_fixed pop population generations evaluate h =
     (case evaluate_all evaluate pop h of
        (Some e, h1) \<Rightarrow> (Inl e, h1)
      | (None, h1) \<Rightarrow> (Inr pop, h1))"

text \<open>A cross-validation that reports the same accuracy for every classifier.\<close>

definition constant_accuracy :: "real \<Rightarrow> real \<Rightarrow> classifier \<Rightarrow> error + real \<times> real" where
  "constant_accuracy mean std clf = Inr (mean, std)"

text \<open>A state of the random generator whose every draw is \<open>n\<close>.\<close>

definition constant_rng :: "nat \<Rightarrow> nat \<Rightarrow> nat" where
  "constant_rng n i = n"

text \<open>The keys of \<open>individual_dict\<close> that a constructor call reads.\<close>

fun arg_keys :: "argexpr \<Rightarrow> string list" where
  "arg_keys (Const c) = []"
| "arg_keys (Item k) = [k]"
| "arg_keys (Items ks) = ks"

definition kw_keys :: "(string \<times> argexpr) list \<Rightarrow> string list" where
  "kw_keys kws = concat (map (\<lambda>(n, a). arg_keys a) kws)"


section \<open>The resolved table as the specification words it\<close>

text \<open>The specification of \<open>get_params\<close>: the entries of the default table in their
  order, each with the caller's descriptor when its name is a key of \<open>custom_params\<close>
  and with the default descriptor otherwise.\<close>

definition resolved_table :: "Param dict \<Rightarrow> Param dict \<Rightarrow> Param dict" where
  "resolved_table custom default_params =
     map (\<lambda>(k, p). (k, case map_of custom k of Some c \<Rightarrow> c | None \<Rightarrow> p)) default_params"

section \<open>Dictionaries: auxiliary facts\<close>

lemmas correct_defs = correct_def py_float_def float_truediv_int_def pow_10_def float_bound_def

lemma update_fresh: "k \<notin> fst ` set al \<Longrightarrow> AList.update k v al = al @ [(k, v)]"
  by (induction al) auto

lemma getitem_in_keys: "k \<in> fst ` set d \<Longrightarrow> getitem d k = Inr (the (map_of d k))"
  by (auto simp: getitem_def map_of_eq_None_iff split: option.splits)

lemma keys_resolved_table: "keys (resolved_table cp dp) = keys dp"
  by (induction dp) (auto simp: keys_def resolved_table_def)

lemma map_of_resolved_table:
  "map_of (resolved_table cp dp) k =
     (case map_of dp k of None \<Rightarrow> None
      | Some p \<Rightarrow> Some (case map_of cp k of Some c \<Rightarrow> c | None \<Rightarrow> p))"
  by (induction dp) (auto simp: resolved_table_def split: option.splits)

lemma distinct_default_keys: "distinct (keys (get_default_params c))"
  by (cases c)
     (simp_all add: keys_def TreeOptimizer_get_default_params_def
        ForestOptimizer_get_default_params_def XGBClassifierOptimizer_get_default_params_def
        SVCOptimizer_get_default_params_def MLPOptimizer_get_default_params_def)

section \<open>get\_params\<close>

lemma get_params_loop_eq:
  "distinct ks \<Longrightarrow> set ks \<subseteq> fst ` set dp \<Longrightarrow> set ks \<inter> fst ` set acc = {} \<Longrightarrow>
   get_params_loop cp dp ks acc =
     Inr (acc @ map (\<lambda>k. (k, case map_of cp k of Some c \<Rightarrow> c | None \<Rightarrow> the (map_of dp k))) ks)"
proof (induction ks arbitrary: acc)
  case Nil
  then show ?case by simp
next
  case (Cons k ks)
  from Cons.prems have fresh: "k \<notin> fst ` set acc" and indp: "k \<in> fst ` set dp" by auto
  have step: "\<And>v. set ks \<inter> fst ` set (acc @ [(k, v)]) = {}"
    using Cons.prems by auto
  show ?case
  proof (cases "map_of cp k")
    case None
    then show ?thesis
      using Cons.prems Cons.IH[OF _ _ step] fresh indp
      by (simp add: update_fresh getitem_in_keys)
  next
    case (Some c)
    then show ?thesis
      using Cons.prems Cons.IH[OF _ _ step] fresh
      by (simp add: update_fresh)
  qed
qed

lemma BaseOptimizer_get_params_eq:
  assumes "distinct (keys dp)"
  shows "BaseOptimizer_get_params cp dp = Inr (resolved_table cp dp)"
proof -
  have "get_params_loop cp dp (keys dp) [] =
     Inr ([] @ map (\<lambda>k. (k, case map_of cp k of Some c \<Rightarrow> c | None \<Rightarrow> the (map_of dp k))) (keys dp))"
    using assms by (intro get_params_loop_eq) (auto simp: keys_def)
  moreover have "map (\<lambda>k. (k, case map_of cp k of Some c \<Rightarrow> c | None \<Rightarrow> the (map_of dp k))) (keys dp)
      = resolved_table cp dp"
    unfolding keys_def resolved_table_def map_map
  proof (rule map_cong[OF refl])
    fix x assume "x \<in> set dp"
    then have "map_of dp (fst x) = Some (snd x)"
      using assms map_of_is_SomeI[of dp "fst x" "snd x"] by (simp add: keys_def)
    then show "((\<lambda>k. (k, case map_of cp k of Some c \<Rightarrow> c | None \<Rightarrow> the (map_of dp k))) \<circ> fst) x
       = (case x of (k, p) \<Rightarrow> (k, case map_of cp k of Some c \<Rightarrow> c | None \<Rightarrow> p))"
      by (cases x) (simp split: option.splits)
  qed
  ultimately show ?thesis by (simp add: BaseOptimizer_get_params_def)
qed

lemma GradientBoostingOptimizer_get_params_AttributeError:
  "GradientBoostingOptimizer_get_params custom = Inl AttributeError"
proof -
  have "BaseOptimizer_get_params custom (get_default_params GradientBoostingOptimizer)
      = Inr (resolved_table custom (get_default_params GradientBoostingOptimizer))"
    by (rule BaseOptimizer_get_params_eq[OF distinct_default_keys])
  then show ?thesis
    unfolding GradientBoostingOptimizer_get_params_def by (simp add: dict_append_def)
qed

lemma BaseOptimizer_init_Inr:
  assumes "BaseOptimizer_init c custom = Inr self"
  shows "c \<noteq> GradientBoostingOptimizer" and "cls self = c"
    and "params self = resolved_table custom (get_default_params c)"
    and "keys (params self) = keys (get_default_params c)"
    and "distinct (keys (params self))"
proof -
  show c: "c \<noteq> GradientBoostingOptimizer"
    using assms
    by (auto simp: BaseOptimizer_init_def get_params_def
        GradientBoostingOptimizer_get_params_AttributeError)
  from c assms show "cls self = c"
    and p: "params self = resolved_table custom (get_default_params c)"
    by (auto simp: BaseOptimizer_init_def get_params_def
        BaseOptimizer_get_params_eq[OF distinct_default_keys])
  from p show k: "keys (params self) = keys (get_default_params c)"
    by (simp add: keys_resolved_table)
  from k show "distinct (keys (params self))"
    by (simp add: distinct_default_keys)
qed

text \<open>
  Claim C5.  For a default table (a dictionary: its keys are distinct) and any
  \<open>custom_params\<close>, \<open>BaseOptimizer.get_params\<close> returns a table with exactly the keys of the
  default table in the same order; a key maps to the caller's descriptor when it is a key
  of \<open>custom_params\<close> and to the default descriptor otherwise; a key of \<open>custom_params\<close>
  that is not in the default table has no entry.
\<close>

theorem get_params_resolved:
  assumes "distinct (keys default_params)"
  shows "\<exists>ps. BaseOptimizer_get_params custom default_params = Inr ps \<and>
           ps = resolved_table custom default_params \<and>
           keys ps = keys default_params \<and>
           (\<forall>k \<in> set (keys default_params).
              getitem ps k = (case map_of custom k of Some c \<Rightarrow> Inr c
                              | None \<Rightarrow> getitem default_params k)) \<and>
           (\<forall>k. k \<notin> set (keys default_params) \<longrightarrow> getitem ps k = Inl (KeyError k))"
proof -
  let ?ps = "resolved_table custom default_params"
  have run: "BaseOptimizer_get_params custom default_params = Inr ?ps"
    by (rule BaseOptimizer_get_params_eq[OF assms])
  have present: "getitem ?ps k = (case map_of custom k of Some c \<Rightarrow> Inr c
                              | None \<Rightarrow> getitem default_params k)"
    if "k \<in> set (keys default_params)" for k
  proof -
    from that obtain p where "map_of default_params k = Some p"
      by (cases "map_of default_params k") (auto simp: keys_def map_of_eq_None_iff)
    then show ?thesis
      by (simp add: getitem_def map_of_resolved_table split: option.splits)
  qed
  have absent: "getitem ?ps k = Inl (KeyError k)" if "k \<notin> set (keys default_params)" for k
  proof -
    from that have "map_of default_params k = None"
      by (simp add: keys_def map_of_eq_None_iff)
    then show ?thesis
      by (simp add: getitem_def map_of_resolved_table)
  qed
  show ?thesis
    using run present absent by (simp add: keys_resolved_table)
qed

theorem get_params_resolved_witness:
  "BaseOptimizer_get_params
     [(''max_depth'', Param_init ''max_depth'' 5 10 IntType 100),
      (''n_jobs'', Param_init ''n_jobs'' 1 4 IntType 100)]
     ForestOptimizer_get_default_params =
   Inr [(''max_features'', Param_init ''max_features'' 75 90 FloatType 100),
        (''n_estimators'', Param_init ''n_estimators'' 50 250 IntType 100),
        (''max_depth'', Param_init ''max_depth'' 5 10 IntType 100),
        (''max_samples'', Param_init ''max_samples'' 20 50 FloatType 100)]"
proof -
  have d: "distinct (keys ForestOptimizer_get_default_params)"
    by (simp add: keys_def ForestOptimizer_get_default_params_def)
  show ?thesis
    using get_params_resolved[OF d,
        of "[(''max_depth'', Param_init ''max_depth'' 5 10 IntType 100),
             (''n_jobs'', Param_init ''n_jobs'' 1 4 IntType 100)]"]
    by (simp add: resolved_table_def ForestOptimizer_get_default_params_def)
qed

text \<open>
  Claim C2.  The claim says that \<open>GradientBoostingOptimizer.get_params\<close> returns the
  inherited table extended by \<open>learning_rate\<close> and \<open>subsample\<close>.  The code calls
  \<open>append\<close> on the inherited dictionary, which raises \<open>AttributeError\<close> for every
  \<open>custom_params\<close>; the constructor of the class, which calls \<open>get_params\<close>, raises with
  it.
\<close>

theorem GradientBoostingOptimizer_get_params_raises:
  "GradientBoostingOptimizer_get_params custom = Inl AttributeError \<and>
   BaseOptimizer_init GradientBoostingOptimizer custom = Inl AttributeError"
  by (simp add: BaseOptimizer_init_def get_params_def
      GradientBoostingOptimizer_get_params_AttributeError)

section \<open>Param\<close>

text \<open>
  Claim C1, amended.  On a raw integer gene \<open>v\<close>, \<open>correct\<close> returns \<open>v\<close> for the type
  \<open>int\<close>, \<open>v * 10\<close> for \<open>"x10"\<close> and \<open>None\<close> for every type it does not know.  For the
  type \<open>float\<close> it returns the float \<open>v / denominator\<close> when \<open>v\<close> and the denominator
  convert to a float and the denominator is not zero; it raises \<open>OverflowError\<close> when
  \<open>v\<close>, or else the denominator, is too large to convert, and \<open>ZeroDivisionError\<close> when
  the denominator is zero.  For \<open>"nexp"\<close> it returns the integer \<open>10 ** (-v)\<close> when
  \<open>v \<le> 0\<close>, the float \<open>10 ** (-v)\<close> when \<open>1 \<le> v \<le> 323\<close>, the float \<open>0.0\<close> when \<open>v\<close>
  is larger and converts to a float, and raises \<open>OverflowError\<close> when \<open>v\<close> does not
  convert.  The cases cover every descriptor and every \<open>v\<close>.
\<close>

theorem correct_decodes:
  "(type p = IntType \<longrightarrow> correct p (PInt v) = Inr (PInt v)) \<and>
   (type p = FloatType \<and> \<bar>v\<bar> < float_bound \<and> \<bar>denominator p\<bar> < float_bound \<and> denominator p \<noteq> 0 \<longrightarrow>
      correct p (PInt v) = Inr (PFloat (real_of_int v / real_of_int (denominator p)))) \<and>
   (type p = FloatType \<and> float_bound \<le> \<bar>v\<bar> \<longrightarrow> correct p (PInt v) = Inl OverflowError) \<and>
   (type p = FloatType \<and> \<bar>v\<bar> < float_bound \<and> float_bound \<le> \<bar>denominator p\<bar> \<longrightarrow>
      correct p (PInt v) = Inl OverflowError) \<and>
   (type p = FloatType \<and> \<bar>v\<bar> < float_bound \<and> denominator p = 0 \<longrightarrow>
      correct p (PInt v) = Inl ZeroDivisionError) \<and>
   (type p = Tag ''nexp'' \<and> v \<le> 0 \<longrightarrow>
      correct p (PInt v) = Inr (PInt (10 ^ nat (- v))) \<and>
      num_of (PInt (10 ^ nat (- v))) = Some (10 powr (- real_of_int v))) \<and>
   (type p = Tag ''nexp'' \<and> 0 < v \<and> v < 324 \<longrightarrow>
      correct p (PInt v) = Inr (PFloat (1 / 10 ^ nat v)) \<and>
      num_of (PFloat (1 / 10 ^ nat v)) = Some (10 powr (- real_of_int v))) \<and>
   (type p = Tag ''nexp'' \<and> 324 \<le> v \<and> v < float_bound \<longrightarrow>
      correct p (PInt v) = Inr (PFloat 0)) \<and>
   (type p = Tag ''nexp'' \<and> float_bound \<le> v \<longrightarrow> correct p (PInt v) = Inl OverflowError) \<and>
   (type p = Tag ''x10'' \<longrightarrow> correct p (PInt v) = Inr (PInt (v * 10))) \<and>
   (type p \<notin> {IntType, FloatType, Tag ''nexp'', Tag ''x10''} \<longrightarrow> correct p (PInt v) = Inr PNone)"
proof -
  have fb: "324 < float_bound"
    by (simp add: float_bound_def)
  have pos: "0 < v \<Longrightarrow> 1 / 10 ^ nat v = 10 powr (- real_of_int v)"
    by (simp add: powr_minus powr_realpow[symmetric] divide_inverse)
  have neg: "v \<le> 0 \<Longrightarrow> real_of_int (10 ^ nat (- v)) = 10 powr (- real_of_int v)"
    by (simp add: powr_realpow[symmetric])
  have int_t: "type p = IntType \<longrightarrow> correct p (PInt v) = Inr (PInt v)"
    by (simp add: correct_def)
  have float_ok: "type p = FloatType \<and> \<bar>v\<bar> < float_bound \<and> \<bar>denominator p\<bar> < float_bound \<and>
      denominator p \<noteq> 0 \<longrightarrow>
      correct p (PInt v) = Inr (PFloat (real_of_int v / real_of_int (denominator p)))"
    by (simp add: correct_def py_float_def float_truediv_int_def)
  have float_v: "type p = FloatType \<and> float_bound \<le> \<bar>v\<bar> \<longrightarrow> correct p (PInt v) = Inl OverflowError"
    by (simp add: correct_def py_float_def)
  have float_d: "type p = FloatType \<and> \<bar>v\<bar> < float_bound \<and> float_bound \<le> \<bar>denominator p\<bar> \<longrightarrow>
      correct p (PInt v) = Inl OverflowError"
    by (simp add: correct_def py_float_def float_truediv_int_def)
  have float_z: "type p = FloatType \<and> \<bar>v\<bar> < float_bound \<and> denominator p = 0 \<longrightarrow>
      correct p (PInt v) = Inl ZeroDivisionError"
    using fb by (simp add: correct_def py_float_def float_truediv_int_def)
  have nexp_int: "type p = Tag ''nexp'' \<and> v \<le> 0 \<longrightarrow>
      correct p (PInt v) = Inr (PInt (10 ^ nat (- v))) \<and>
      num_of (PInt (10 ^ nat (- v))) = Some (10 powr (- real_of_int v))"
    using neg by (simp add: correct_def pow_10_def)
  have nexp_float: "type p = Tag ''nexp'' \<and> 0 < v \<and> v < 324 \<longrightarrow>
      correct p (PInt v) = Inr (PFloat (1 / 10 ^ nat v)) \<and>
      num_of (PFloat (1 / 10 ^ nat v)) = Some (10 powr (- real_of_int v))"
    using pos fb by (simp add: correct_def pow_10_def py_float_def)
  have nexp_zero: "type p = Tag ''nexp'' \<and> 324 \<le> v \<and> v < float_bound \<longrightarrow>
      correct p (PInt v) = Inr (PFloat 0)"
    by (simp add: correct_def pow_10_def py_float_def)
  have nexp_over: "type p = Tag ''nexp'' \<and> float_bound \<le> v \<longrightarrow> correct p (PInt v) = Inl OverflowError"
    using fb by (simp add: correct_def pow_10_def py_float_def)
  have x10: "type p = Tag ''x10'' \<longrightarrow> correct p (PInt v) = Inr (PInt (v * 10))"
    by (simp add: correct_def)
  have other: "type p \<notin> {IntType, FloatType, Tag ''nexp'', Tag ''x10''} \<longrightarrow>
      correct p (PInt v) = Inr PNone"
    by (simp add: correct_def)
  from int_t float_ok float_v float_d float_z nexp_int nexp_float nexp_zero nexp_over x10 other
  show ?thesis by blast
qed

theorem correct_decodes_witness:
  "correct (Param_init ''min_impurity_decrease'' 0 150 FloatType 1000) (PInt 150) = Inr (PFloat 0.15) \<and>
   correct (Param_init ''alpha'' 1 6 (Tag ''nexp'') 100) (PInt 3) = Inr (PFloat 0.001) \<and>
   correct (Param_init ''layer2'' 1 20 (Tag ''x10'') 100) (PInt 20) = Inr (PInt 200) \<and>
   correct (Param_init ''max_depth'' 2 50 IntType 100) (PInt 7) = Inr (PInt 7) \<and>
   correct (Param_init ''alpha'' (- 2) 6 (Tag ''nexp'') 100) (PInt (- 2)) = Inr (PInt 100) \<and>
   correct (Param_init ''alpha'' 1 400 (Tag ''nexp'') 100) (PInt 324) = Inr (PFloat 0) \<and>
   correct (Param_init ''alpha'' 1 (2 ^ 1024) (Tag ''nexp'') 100) (PInt (2 ^ 1024)) = Inl OverflowError \<and>
   correct (Param_init ''C'' 1 (10 ^ 309) FloatType 10) (PInt (10 ^ 309)) = Inl OverflowError \<and>
   correct (Param_init ''C'' 1 10000 FloatType (10 ^ 309)) (PInt 1) = Inl OverflowError \<and>
   correct (Param_init ''p'' 0 1 FloatType 0) (PInt 1) = Inl ZeroDivisionError \<and>
   correct (Param_init ''kernel'' 0 3 (Tag ''choice'') 100) (PInt 2) = Inr PNone"
proof -
  have small: "\<bar>150\<bar> < float_bound" "\<bar>1000\<bar> < float_bound" "\<bar>1\<bar> < float_bound"
    "(324::int) < float_bound"
    by (simp_all add: float_bound_def)
  have large: "float_bound \<le> 2 ^ 1024" "float_bound \<le> \<bar>10 ^ 309\<bar>"
    by (simp_all add: float_bound_def)
  have w1: "correct (Param_init ''min_impurity_decrease'' 0 150 FloatType 1000) (PInt 150)
      = Inr (PFloat 0.15)"
    using correct_decodes[of "Param_init ''min_impurity_decrease'' 0 150 FloatType 1000" 150] small
    by (simp add: Param_init_def)
  have w2: "correct (Param_init ''alpha'' 1 6 (Tag ''nexp'') 100) (PInt 3) = Inr (PFloat 0.001)"
    using correct_decodes[of "Param_init ''alpha'' 1 6 (Tag ''nexp'') 100" 3]
    by (simp add: Param_init_def)
  have w3: "correct (Param_init ''layer2'' 1 20 (Tag ''x10'') 100) (PInt 20) = Inr (PInt 200)"
    using correct_decodes[of "Param_init ''layer2'' 1 20 (Tag ''x10'') 100" 20]
    by (simp add: Param_init_def)
  have w4: "correct (Param_init ''max_depth'' 2 50 IntType 100) (PInt 7) = Inr (PInt 7)"
    using correct_decodes[of "Param_init ''max_depth'' 2 50 IntType 100" 7]
    by (simp add: Param_init_def)
  have w5: "correct (Param_init ''alpha'' (- 2) 6 (Tag ''nexp'') 100) (PInt (- 2)) = Inr (PInt 100)"
    using correct_decodes[of "Param_init ''alpha'' (- 2) 6 (Tag ''nexp'') 100" "- 2"]
    by (simp add: Param_init_def)
  have w6: "correct (Param_init ''alpha'' 1 400 (Tag ''nexp'') 100) (PInt 324) = Inr (PFloat 0)"
    using correct_decodes[of "Param_init ''alpha'' 1 400 (Tag ''nexp'') 100" 324] small
    by (simp add: Param_init_def)
  have w7: "correct (Param_init ''alpha'' 1 (2 ^ 1024) (Tag ''nexp'') 100) (PInt (2 ^ 1024))
      = Inl OverflowError"
    using correct_decodes[of "Param_init ''alpha'' 1 (2 ^ 1024) (Tag ''nexp'') 100" "2 ^ 1024"]
      large(1)
    by (simp add: Param_init_def del: power_numeral)
  have w8: "correct (Param_init ''C'' 1 (10 ^ 309) FloatType 10) (PInt (10 ^ 309))
      = Inl OverflowError"
    using correct_decodes[of "Param_init ''C'' 1 (10 ^ 309) FloatType 10" "10 ^ 309"] large(2)
    by (simp add: Param_init_def del: power_numeral)
  have w9: "correct (Param_init ''C'' 1 10000 FloatType (10 ^ 309)) (PInt 1) = Inl OverflowError"
    using correct_decodes[of "Param_init ''C'' 1 10000 FloatType (10 ^ 309)" 1] large(2) small(3)
    by (simp add: Param_init_def del: power_numeral)
  have w10: "correct (Param_init ''p'' 0 1 FloatType 0) (PInt 1) = Inl ZeroDivisionError"
    using correct_decodes[of "Param_init ''p'' 0 1 FloatType 0" 1] small(3)
    by (simp add: Param_init_def)
  have w11: "correct (Param_init ''kernel'' 0 3 (Tag ''choice'') 100) (PInt 2) = Inr PNone"
    using correct_decodes[of "Param_init ''kernel'' 0 3 (Tag ''choice'') 100" 2]
    by (simp add: Param_init_def)
  from w1 w2 w3 w4 w5 w6 w7 w8 w9 w10 w11 show ?thesis
    by blast
qed

text \<open>The claim as stated fails in three ways: a float descriptor with denominator 0
  raises instead of returning \<open>v / denominator\<close>; a float descriptor raises on a gene too
  large to convert to a float; and \<open>"nexp"\<close> returns \<open>0.0\<close>, which is not \<open>10 ** (-v)\<close>,
  from \<open>v = 324\<close> on.\<close>

theorem correct_raises_or_underflows:
  "correct (Param_init ''p'' 0 1 FloatType 0) (PInt 1) = Inl ZeroDivisionError \<and>
   correct (Param_init ''p'' 0 1 FloatType 0) (PInt 1) \<noteq> Inr (PFloat (1 / 0)) \<and>
   correct (Param_init ''C'' 1 (10 ^ 309) FloatType 10) (PInt (10 ^ 309)) = Inl OverflowError \<and>
   correct (Param_init ''alpha'' 1 400 (Tag ''nexp'') 100) (PInt 324) = Inr (PFloat 0) \<and>
   PFloat 0 \<noteq> PFloat (1 / 10 ^ 324)"
  by (simp add: correct_defs Param_init_def)

text \<open>
  Claim C10.  \<open>p == q\<close> holds exactly when the names, the minimum bounds, the types and
  the denominators agree; the maximum bound is not compared, so a descriptor equals any
  descriptor that differs from it only in \<open>maxValue\<close>.
\<close>

theorem Param_eq_fields:
  "Param_eq p q =
     (name p = name q \<and> minValue p = minValue q \<and> type p = type q \<and> denominator p = denominator q) \<and>
   Param_eq p (p\<lparr>maxValue := m\<rparr>) \<and>
   Param_eq (Param_init ''max_depth'' 2 50 IntType 100) (Param_init ''max_depth'' 2 9 IntType 100)"
  by (simp add: Param_eq_def Param_init_def)

section \<open>The default table of MLPOptimizer\<close>

text \<open>
  Claim C9.  In the default table of \<open>MLPOptimizer\<close> the keys \<open>layer2\<close> and \<open>layer3\<close> are
  present under their own names, and the descriptors stored under them have the name field
  \<open>"layer1"\<close>.
\<close>

theorem MLP_layer_names:
  "keys MLPOptimizer_get_default_params =
     [''learning_rate_init'', ''alpha'', ''layer1'', ''layer2'', ''layer3''] \<and>
   map_option name (map_of MLPOptimizer_get_default_params ''layer2'') = Some ''layer1'' \<and>
   map_option name (map_of MLPOptimizer_get_default_params ''layer3'') = Some ''layer1'' \<and>
   getitem MLPOptimizer_get_default_params ''layer2'' = Inr (Param_init ''layer1'' 1 20 (Tag ''x10'') 100) \<and>
   getitem MLPOptimizer_get_default_params ''layer3'' = Inr (Param_init ''layer1'' 1 10 (Tag ''x10'') 100)"
  by (simp add: MLPOptimizer_get_default_params_def keys_def getitem_def Param_init_def)

section \<open>individual2dict\<close>

lemma individual2dict_loop_eq:
  "distinct ks \<Longrightarrow> set ks \<inter> fst ` set acc = {} \<Longrightarrow> i + length ks \<le> length ind \<Longrightarrow>
   individual2dict_loop ks i ind acc = Inr (acc @ zip ks (drop i ind))"
proof (induction ks arbitrary: i acc)
  case Nil
  then show ?case by simp
next
  case (Cons k ks)
  from Cons.prems have lt: "i < length ind" and fresh: "k \<notin> fst ` set acc" by auto
  have d: "drop i ind = ind ! i # drop (Suc i) ind"
    using lt by (simp add: Cons_nth_drop_Suc)
  have "individual2dict_loop ks (Suc i) ind (acc @ [(k, ind ! i)])
      = Inr ((acc @ [(k, ind ! i)]) @ zip ks (drop (Suc i) ind))"
    using Cons.prems by (intro Cons.IH) auto
  then show ?case
    using lt fresh d by (simp add: list_getitem_def update_fresh)
qed

lemma individual2dict_loop_short:
  "i \<le> length ind \<Longrightarrow> length ind < i + length ks \<Longrightarrow>
   individual2dict_loop ks i ind acc = Inl IndexError"
proof (induction ks arbitrary: i acc)
  case Nil
  then show ?case by simp
next
  case (Cons k ks)
  show ?case
  proof (cases "i < length ind")
    case True
    with Cons.prems have "Suc i \<le> length ind" "length ind < Suc i + length ks" by simp_all
    from Cons.IH[OF this] True show ?thesis
      by (simp add: list_getitem_def)
  next
    case False
    then show ?thesis by (simp add: list_getitem_def)
  qed
qed

lemma individual2dict_eq:
  assumes "distinct (keys (params self))"
  shows "individual2dict self ind =
     (if length (params self) \<le> length ind then Inr (zip (keys (params self)) ind)
      else Inl IndexError)"
  using assms individual2dict_loop_eq[of "keys (params self)" "[]" 0 ind]
    individual2dict_loop_short[where i = 0 and ind = ind and ks = "keys (params self)" and acc = "[]"]
  by (simp add: individual2dict_def keys_def)

lemma values_in_order_eq:
  "set ks \<subseteq> fst ` set d \<Longrightarrow> values_in_order d ks = Inr (map (\<lambda>k. the (map_of d k)) ks)"
  by (induction ks) (simp_all add: getitem_in_keys)

text \<open>
  Claim C6.  For a table of \<open>N\<close> parameters (a dictionary: its keys are distinct) and an
  individual of length \<open>N\<close>, \<open>individual2dict\<close> returns a dictionary with the keys of
  the table in their order, in which the \<open>i\<close>-th key maps to the \<open>i\<close>-th gene
  unchanged; reading the dictionary back in the key order of the table gives the
  individual again.
\<close>

theorem individual2dict_roundtrip:
  assumes "distinct (keys (params self))" and "length individual = length (params self)"
  shows "\<exists>d. individual2dict self individual = Inr d \<and>
           keys d = keys (params self) \<and>
           (\<forall>i < length individual. getitem d (keys (params self) ! i) = Inr (individual ! i)) \<and>
           values_in_order d (keys (params self)) = Inr individual"
proof -
  let ?ks = "keys (params self)"
  let ?d = "zip ?ks individual"
  have len: "length ?ks = length individual"
    using assms(2) by (simp add: keys_def)
  have run: "individual2dict self individual = Inr ?d"
    using assms by (simp add: individual2dict_eq)
  have ks: "keys ?d = ?ks"
    using len by (simp add: keys_def)
  have item: "map_of ?d (?ks ! i) = Some (individual ! i)" if "i < length individual" for i
    using that len assms(1) by (simp add: map_of_zip_nth)
  have "values_in_order ?d ?ks = Inr (map (\<lambda>k. the (map_of ?d k)) ?ks)"
    using len by (intro values_in_order_eq) (simp flip: set_map)
  moreover have "map (\<lambda>k. the (map_of ?d k)) ?ks = individual"
    using len item by (intro nth_equalityI) simp_all
  ultimately show ?thesis
    using run ks item by (simp add: getitem_def)
qed


theorem individual2dict_roundtrip_witness:
  "\<exists>d. individual2dict
         \<lparr>cls = SVCOptimizer, custom_params = [], params = SVCOptimizer_get_default_params\<rparr>
         [PInt 25, PInt 3, PInt 1000] = Inr d \<and>
       keys d = [''C'', ''degree'', ''gamma''] \<and>
       getitem d ''C'' = Inr (PInt 25) \<and>
       getitem d ''degree'' = Inr (PInt 3) \<and>
       getitem d ''gamma'' = Inr (PInt 1000) \<and>
       values_in_order d [''C'', ''degree'', ''gamma''] = Inr [PInt 25, PInt 3, PInt 1000]"
proof -
  let ?self = "\<lparr>cls = SVCOptimizer, custom_params = [], params = SVCOptimizer_get_default_params\<rparr>"
  have k: "keys (params ?self) = [''C'', ''degree'', ''gamma'']"
    by (simp add: keys_def SVCOptimizer_get_default_params_def)
  have d: "distinct (keys (params ?self))"
    unfolding k by simp
  have l: "length [PInt 25, PInt 3, PInt 1000] = length (params ?self)"
    by (simp add: SVCOptimizer_get_default_params_def)
  from individual2dict_roundtrip[OF d l] obtain dd where
    run: "individual2dict ?self [PInt 25, PInt 3, PInt 1000] = Inr dd"
    and kd: "keys dd = keys (params ?self)"
    and it: "\<forall>i<length [PInt 25, PInt 3, PInt 1000].
        getitem dd (keys (params ?self) ! i) = Inr ([PInt 25, PInt 3, PInt 1000] ! i)"
    and vo: "values_in_order dd (keys (params ?self)) = Inr [PInt 25, PInt 3, PInt 1000]"
    by blast
  from it[rule_format, of 0] it[rule_format, of 1] it[rule_format, of 2]
  have "getitem dd ''C'' = Inr (PInt 25)" "getitem dd ''degree'' = Inr (PInt 3)"
    "getitem dd ''gamma'' = Inr (PInt 1000)"
    unfolding k by simp_all
  with run kd vo show ?thesis
    unfolding k by blast
qed

section \<open>get\_corrected\_clf\<close>

lemma correct_loop_length: "length (snd (correct_loop ps ks i b h)) = length h"
  by (induction ks arbitrary: i h) (auto split: sum.splits)

lemma correct_loop_other: "a \<noteq> b \<Longrightarrow> snd (correct_loop ps ks i b h) ! a = h ! a"
  by (induction ks arbitrary: i h) (auto split: sum.splits)

lemma correct_loop_ok:
  "b < length h \<Longrightarrow> correct_loop ps ks i b h = (None, h') \<Longrightarrow> i \<le> length (h ! b) \<Longrightarrow>
   length (h' ! b) = length (h ! b) \<and> i + length ks \<le> length (h ! b) \<and>
   (\<forall>j. j < i \<or> i + length ks \<le> j \<longrightarrow> h' ! b ! j = h ! b ! j) \<and>
   (\<forall>j < length ks. \<exists>p. getitem ps (ks ! j) = Inr p \<and>
      correct p (h ! b ! (i + j)) = Inr (h' ! b ! (i + j)))"
proof (induction ks arbitrary: i h)
  case Nil
  then show ?case by simp
next
  case (Cons k ks)
  from Cons.prems(2) obtain p v where
    p: "getitem ps k = Inr p" and lt: "i < length (h ! b)"
    and v: "correct p (h ! b ! i) = Inr v"
    and rest: "correct_loop ps ks (Suc i) b (h[b := (h ! b)[i := v]]) = (None, h')"
    by (auto simp: list_getitem_def split: sum.splits if_splits)
  let ?h1 = "h[b := (h ! b)[i := v]]"
  have b1: "b < length ?h1" using Cons.prems(1) by simp
  have h1b: "?h1 ! b = (h ! b)[i := v]" using Cons.prems(1) by simp
  have i1: "Suc i \<le> length (?h1 ! b)" using lt h1b by simp
  note IH = Cons.IH[OF b1 rest i1, unfolded h1b]
  from IH have len: "length (h' ! b) = length (h ! b)" by simp
  from IH have bound: "i + length (k # ks) \<le> length (h ! b)" by simp
  from IH have same: "\<And>j. j < Suc i \<or> Suc i + length ks \<le> j \<Longrightarrow> h' ! b ! j = (h ! b)[i := v] ! j"
    by blast
  from IH have dec: "\<And>j. j < length ks \<Longrightarrow> \<exists>q. getitem ps (ks ! j) = Inr q \<and>
      correct q ((h ! b)[i := v] ! (Suc i + j)) = Inr (h' ! b ! (Suc i + j))"
    by blast
  have at_i: "h' ! b ! i = v"
    using same[of i] lt by simp
  have frame: "h' ! b ! j = h ! b ! j" if "j < i \<or> i + length (k # ks) \<le> j" for j
    using same[of j] that by auto
  have step: "\<exists>q. getitem ps ((k # ks) ! j) = Inr q \<and>
      correct q (h ! b ! (i + j)) = Inr (h' ! b ! (i + j))" if "j < length (k # ks)" for j
  proof (cases j)
    case 0
    then show ?thesis using p v at_i by simp
  next
    case (Suc m)
    with that have "m < length ks" by simp
    from dec[OF this] Suc show ?thesis by simp
  qed
  show ?case
    using len bound frame step by blast
qed


lemma get_corrected_clf_store:
  "snd (get_corrected_clf self a h) =
     snd (correct_loop (params self) (keys (params self)) 0 (length h) (h @ [h ! a]))"
  by (simp add: get_corrected_clf_def copy_copy_def split: prod.splits option.splits)

lemma get_corrected_clf_unchanged:
  "take (length h) (snd (get_corrected_clf self a h)) = h \<and>
   length (snd (get_corrected_clf self a h)) = Suc (length h)"
proof -
  let ?h' = "snd (correct_loop (params self) (keys (params self)) 0 (length h) (h @ [h ! a]))"
  have len: "length ?h' = Suc (length h)"
    by (simp add: correct_loop_length)
  have "take (length h) ?h' = h"
  proof (rule nth_equalityI)
    show "length (take (length h) ?h') = length h" using len by simp
  next
    fix j assume "j < length (take (length h) ?h')"
    then have j: "j < length h" by simp
    then have "?h' ! j = (h @ [h ! a]) ! j"
      by (intro correct_loop_other) simp
    with j show "take (length h) ?h' ! j = h ! j"
      by (simp add: nth_append)
  qed
  with len show ?thesis by (simp add: get_corrected_clf_store)
qed

lemma get_corrected_clf_ok:
  assumes "get_corrected_clf self a h = (Inr c, h')"
  shows "correct_loop (params self) (keys (params self)) 0 (length h) (h @ [h ! a]) = (None, h')
     \<and> get_clf self (h' ! length h) = Inr c"
  using assms by (auto simp: get_corrected_clf_def copy_copy_def split: prod.splits option.splits)

text \<open>
  Claim C7.  After \<open>get_corrected_clf\<close> the caller's individual is unchanged, whatever
  the outcome of the call: no list object that existed before the call is changed, and the
  one object the call adds is the copy.  When the call returns a classifier, the copy
  holds \<open>correct\<close> of each parameter applied to the corresponding gene of the original
  (genes beyond the table are as in the original) and the classifier is \<open>get_clf\<close> of
  the copy.
\<close>

theorem get_corrected_clf_frame:
  assumes "individual_in < length h"
    and "get_corrected_clf self individual_in h = (r, h')"
  shows "h' ! individual_in = h ! individual_in \<and>
         take (length h) h' = h \<and> length h' = Suc (length h) \<and>
         (\<forall>c. r = Inr c \<longrightarrow>
            get_clf self (h' ! length h) = Inr c \<and>
            length (h' ! length h) = length (h ! individual_in) \<and>
            (\<forall>i < length (params self).
               \<exists>p. getitem (params self) (keys (params self) ! i) = Inr p \<and>
                   correct p (h ! individual_in ! i) = Inr (h' ! length h ! i)) \<and>
            (\<forall>i. length (params self) \<le> i \<longrightarrow> h' ! length h ! i = h ! individual_in ! i))"
proof -
  from get_corrected_clf_unchanged[of h self individual_in] assms(2)
  have tk: "take (length h) h' = h" and len: "length h' = Suc (length h)" by simp_all
  have "h' ! individual_in = take (length h) h' ! individual_in"
    using assms(1) by simp
  then have orig: "h' ! individual_in = h ! individual_in"
    using tk by simp
  have ok: "get_clf self (h' ! length h) = Inr c \<and>
            length (h' ! length h) = length (h ! individual_in) \<and>
            (\<forall>i < length (params self).
               \<exists>p. getitem (params self) (keys (params self) ! i) = Inr p \<and>
                   correct p (h ! individual_in ! i) = Inr (h' ! length h ! i)) \<and>
            (\<forall>i. length (params self) \<le> i \<longrightarrow> h' ! length h ! i = h ! individual_in ! i)"
    if "r = Inr c" for c
  proof -
    from that assms(2) get_corrected_clf_ok[of self individual_in h c h']
    have loop: "correct_loop (params self) (keys (params self)) 0 (length h)
        (h @ [h ! individual_in]) = (None, h')"
      and clf: "get_clf self (h' ! length h) = Inr c" by simp_all
    have b: "length h < length (h @ [h ! individual_in])" by simp
    from correct_loop_ok[OF b loop] clf show ?thesis
      by (simp add: keys_def)
  qed
  from orig tk len ok show ?thesis by blast
qed

theorem get_corrected_clf_frame_witness:
  "snd (get_corrected_clf
          \<lparr>cls = TreeOptimizer, custom_params = [], params = TreeOptimizer_get_default_params\<rparr>
          0 [[PInt 10, PInt 5, PInt 20, PInt 150, PInt 300]]) ! 0
     = [PInt 10, PInt 5, PInt 20, PInt 150, PInt 300] \<and>
   get_corrected_clf
     \<lparr>cls = TreeOptimizer, custom_params = [], params = TreeOptimizer_get_default_params\<rparr>
     0 [[PInt 10, PInt 5, PInt 20, PInt 150, PInt 300]]
     = (get_clf
          \<lparr>cls = TreeOptimizer, custom_params = [], params = TreeOptimizer_get_default_params\<rparr>
          [PInt 10, PInt 5, PInt 20, PFloat 0.15, PFloat 0.003],
        [[PInt 10, PInt 5, PInt 20, PInt 150, PInt 300],
         [PInt 10, PInt 5, PInt 20, PFloat 0.15, PFloat 0.003]])"
proof -
  let ?S = "\<lparr>cls = TreeOptimizer, custom_params = [], params = TreeOptimizer_get_default_params\<rparr>"
  let ?H = "[[PInt 10, PInt 5, PInt 20, PInt 150, PInt 300]]"
  have run: "get_corrected_clf ?S 0 ?H
     = (get_clf ?S [PInt 10, PInt 5, PInt 20, PFloat 0.15, PFloat 0.003],
        [[PInt 10, PInt 5, PInt 20, PInt 150, PInt 300],
         [PInt 10, PInt 5, PInt 20, PFloat 0.15, PFloat 0.003]])"
    by (simp add: get_corrected_clf_def copy_copy_def keys_def
        TreeOptimizer_get_default_params_def getitem_def list_getitem_def correct_defs
        Param_init_def)
  have valid: "0 < length ?H" by simp
  from get_corrected_clf_frame[OF valid run] have "snd (get_corrected_clf ?S 0 ?H) ! 0 = ?H ! 0"
    unfolding run by simp
  with run show ?thesis by simp
qed


section \<open>Classifiers and the genes they are built from\<close>

lemma values_in_order_agree:
  "values_in_order d ks = Inr vs \<Longrightarrow> values_in_order d' ks = Inr vs \<Longrightarrow> k \<in> set ks \<Longrightarrow>
   getitem d k = getitem d' k"
  by (induction ks arbitrary: vs) (auto split: sum.splits)

lemma values_in_order_missing:
  "k \<in> set ks \<Longrightarrow> map_of d k = None \<Longrightarrow> values_in_order d ks \<noteq> Inr vs"
  by (induction ks arbitrary: vs) (auto simp: getitem_def split: sum.splits)

lemma eval_arg_agree:
  "eval_arg d a = Inr v \<Longrightarrow> eval_arg d' a = Inr v \<Longrightarrow> k \<in> set (arg_keys a) \<Longrightarrow>
   getitem d k = getitem d' k"
  by (cases a) (auto split: sum.splits dest: values_in_order_agree)

lemma eval_arg_missing:
  "k \<in> set (arg_keys a) \<Longrightarrow> map_of d k = None \<Longrightarrow> eval_arg d a \<noteq> Inr v"
  by (cases a) (auto simp: getitem_def values_in_order_missing split: sum.splits)

lemma eval_kwargs_agree:
  "eval_kwargs d kws = Inr args \<Longrightarrow> eval_kwargs d' kws = Inr args \<Longrightarrow>
   k \<in> set (kw_keys kws) \<Longrightarrow> getitem d k = getitem d' k"
proof (induction kws arbitrary: args)
  case Nil
  then show ?case by (simp add: kw_keys_def)
next
  case (Cons kw kws)
  obtain n a where kw: "kw = (n, a)" by (cases kw)
  from Cons.prems(1) kw obtain v vs where
    v: "eval_arg d a = Inr v" and vs: "eval_kwargs d kws = Inr vs" and args: "args = (n, v) # vs"
    by (auto split: sum.splits)
  from Cons.prems(2) kw args have
    v': "eval_arg d' a = Inr v" and vs': "eval_kwargs d' kws = Inr vs"
    by (auto split: sum.splits)
  from Cons.prems(3) kw have "k \<in> set (arg_keys a) \<or> k \<in> set (kw_keys kws)"
    by (simp add: kw_keys_def)
  then show ?case
    using eval_arg_agree[OF v v'] Cons.IH[OF vs vs'] by blast
qed

lemma eval_kwargs_missing:
  "k \<in> set (kw_keys kws) \<Longrightarrow> map_of d k = None \<Longrightarrow> eval_kwargs d kws \<noteq> Inr args"
proof (induction kws arbitrary: args)
  case Nil
  then show ?case by (simp add: kw_keys_def)
next
  case (Cons kw kws)
  obtain n a where kw: "kw = (n, a)" by (cases kw)
  from Cons.prems(1) kw have "k \<in> set (arg_keys a) \<or> k \<in> set (kw_keys kws)"
    by (simp add: kw_keys_def)
  then show ?case
  proof
    assume "k \<in> set (arg_keys a)"
    from eval_arg_missing[OF this Cons.prems(2)] have "\<And>v. eval_arg d a \<noteq> Inr v" .
    then show ?thesis using kw by (auto split: sum.splits)
  next
    assume "k \<in> set (kw_keys kws)"
    from Cons.IH[OF this Cons.prems(2)] have "\<And>vs. eval_kwargs d kws \<noteq> Inr vs" .
    then show ?thesis using kw by (auto split: sum.splits)
  qed
qed

lemma zip_take_right: "zip ks (take (length ks) a) = zip ks a"
  using take_zip[of "length ks" ks a] by simp

lemma build_missing:
  assumes "distinct (keys (params self))" and "k \<in> set (kw_keys kws)"
    and "k \<notin> set (keys (params self))"
  shows "build self ind cname kws \<noteq> Inr c"
proof (cases "length (params self) \<le> length ind")
  case True
  have "map_of (zip (keys (params self)) ind) k = None"
    using assms(3) by (auto simp: map_of_eq_None_iff keys_def dest: set_zip_leftD)
  from eval_kwargs_missing[OF assms(2) this] True assms(1) show ?thesis
    by (auto simp: build_def individual2dict_eq split: sum.splits)
next
  case False
  with assms(1) show ?thesis
    by (simp add: build_def individual2dict_eq)
qed

lemma build_agree:
  assumes d: "distinct (keys (params self))"
    and sub: "set (keys (params self)) \<subseteq> set (kw_keys kws)"
    and a: "build self a cname kws = Inr c" and b: "build self b cname kws = Inr c"
  shows "take (length (params self)) a = take (length (params self)) b"
proof -
  let ?ks = "keys (params self)"
  let ?n = "length (params self)"
  have n: "length ?ks = ?n" by (simp add: keys_def)
  from a d obtain args where la: "?n \<le> length a"
    and ea: "eval_kwargs (zip ?ks a) kws = Inr args" and c: "c = Classifier cname args"
    by (auto simp: build_def individual2dict_eq split: sum.splits if_splits)
  from b d c have lb: "?n \<le> length b" and eb: "eval_kwargs (zip ?ks b) kws = Inr args"
    by (auto simp: build_def individual2dict_eq split: sum.splits if_splits)
  have za: "zip ?ks a = zip ?ks (take ?n a)" and zb: "zip ?ks b = zip ?ks (take ?n b)"
    using n zip_take_right[of ?ks a] zip_take_right[of ?ks b] by simp_all
  show ?thesis
  proof (rule nth_equalityI)
    show "length (take ?n a) = length (take ?n b)" using la lb by simp
  next
    fix i assume "i < length (take ?n a)"
    then have i: "i < ?n" by simp
    then have "?ks ! i \<in> set (kw_keys kws)" using sub n by (metis nth_mem subsetD)
    from eval_kwargs_agree[OF ea eb this]
    have "map_of (zip ?ks (take ?n a)) (?ks ! i) = map_of (zip ?ks (take ?n b)) (?ks ! i)"
      using za zb by (auto simp: getitem_def split: option.splits)
    moreover have "map_of (zip ?ks (take ?n a)) (?ks ! i) = Some (take ?n a ! i)"
      using i n la d by (intro map_of_zip_nth) simp_all
    moreover have "map_of (zip ?ks (take ?n b)) (?ks ! i) = Some (take ?n b ! i)"
      using i n lb d by (intro map_of_zip_nth) simp_all
    ultimately show "take ?n a ! i = take ?n b ! i" by simp
  qed
qed

section \<open>The missing keys of ExtraTreesOptimizer and GradientBoostingOptimizer\<close>

lemma ExtraTrees_get_clf_KeyError:
  assumes "BaseOptimizer_init ExtraTreesOptimizer [] = Inr self"
    and "length individual = length (params self)"
  shows "keys (params self) = [''max_features'', ''n_estimators'', ''max_depth'', ''max_samples''] \<and>
         ''min_samples_split'' \<notin> set (keys (params self)) \<and>
         ''min_samples_leaf'' \<notin> set (keys (params self)) \<and>
         (\<exists>d. individual2dict self individual = Inr d \<and>
              getitem d ''min_samples_split'' = Inl (KeyError ''min_samples_split'') \<and>
              getitem d ''min_samples_leaf'' = Inl (KeyError ''min_samples_leaf'')) \<and>
         get_clf self individual = Inl (KeyError ''min_samples_split'')"
proof -
  note init = BaseOptimizer_init_Inr[OF assms(1)]
  have ks: "keys (params self) = [''max_features'', ''n_estimators'', ''max_depth'', ''max_samples'']"
    using init(4) by (simp add: keys_def ForestOptimizer_get_default_params_def)
  have "length (params self) = length (keys (params self))"
    by (simp add: keys_def)
  with assms(2) ks have "length individual = Suc (Suc (Suc (Suc 0)))"
    by simp
  then obtain a b c d where ind: "individual = [a, b, c, d]"
    by (auto simp: length_Suc_conv)
  have d: "individual2dict self individual =
      Inr [(''max_features'', a), (''n_estimators'', b), (''max_depth'', c), (''max_samples'', d)]"
    using init(5) ind assms(2) by (simp add: individual2dict_eq ks)
  have clf: "get_clf self individual = Inl (KeyError ''min_samples_split'')"
    using init(2) d
    by (simp add: get_clf_def ExtraTreesOptimizer_get_clf_def build_def getitem_def)
  show ?thesis
    using ks d clf by (simp add: getitem_def)
qed

lemma GradientBoostingOptimizer_get_clf_KeyError:
  assumes c: "cls self = GradientBoostingOptimizer"
    and ks: "keys (params self) = [''max_features'', ''n_estimators'', ''max_depth'', ''max_samples''] \<or>
             keys (params self) = [''max_features'', ''n_estimators'', ''max_depth'', ''max_samples'',
                                   ''learning_rate'', ''subsample'']"
    and len: "length individual = length (params self)"
  shows "get_clf self individual = Inl (KeyError ''min_samples_split'')"
proof -
  have n: "length (params self) = length (keys (params self))"
    by (simp add: keys_def)
  from ks show ?thesis
  proof
    assume k4: "keys (params self) = [''max_features'', ''n_estimators'', ''max_depth'', ''max_samples'']"
    then have d: "distinct (keys (params self))" by simp
    from len n k4 have "length individual = Suc (Suc (Suc (Suc 0)))" by simp
    then obtain g1 g2 g3 g4 where ind: "individual = [g1, g2, g3, g4]"
      by (auto simp: length_Suc_conv)
    have "individual2dict self individual =
        Inr [(''max_features'', g1), (''n_estimators'', g2), (''max_depth'', g3), (''max_samples'', g4)]"
      using d ind len by (simp add: individual2dict_eq k4)
    then show ?thesis
      using c by (simp add: get_clf_def GradientBoostingOptimizer_get_clf_def build_def getitem_def)
  next
    assume k6: "keys (params self) = [''max_features'', ''n_estimators'', ''max_depth'', ''max_samples'',
                                      ''learning_rate'', ''subsample'']"
    then have d: "distinct (keys (params self))" by simp
    from len n k6 have "length individual = Suc (Suc (Suc (Suc (Suc (Suc 0)))))" by simp
    then obtain g1 g2 g3 g4 g5 g6 where ind: "individual = [g1, g2, g3, g4, g5, g6]"
      by (auto simp: length_Suc_conv)
    have "individual2dict self individual =
        Inr [(''max_features'', g1), (''n_estimators'', g2), (''max_depth'', g3), (''max_samples'', g4),
             (''learning_rate'', g5), (''subsample'', g6)]"
      using d ind len by (simp add: individual2dict_eq k6)
    then show ?thesis
      using c by (simp add: get_clf_def GradientBoostingOptimizer_get_clf_def build_def getitem_def)
  qed
qed

text \<open>
  Claim C3.  For an \<open>ExtraTreesOptimizer\<close> constructed with no custom parameters, the
  resolved table has the four keys of \<open>ForestOptimizer\<close> and neither \<open>min_samples_split\<close>
  nor \<open>min_samples_leaf\<close>; for every individual of the length of the table (raw or
  decoded) the dictionary of \<open>individual2dict\<close> lacks both keys and \<open>get_clf\<close> raises
  \<open>KeyError\<close> for \<open>min_samples_split\<close>, the first of them that the constructor call reads.
  The claim says the same of \<open>GradientBoostingOptimizer\<close>.  Its \<open>get_clf\<close> does raise that
  \<open>KeyError\<close> on every object of the class whose table is the inherited one or the
  intended one with \<open>learning_rate\<close> and \<open>subsample\<close> added; but the constructor of the
  class raises \<open>AttributeError\<close> for every \<open>custom_params\<close> (the \<open>append\<close> of claim C2), so
  the code builds no such object and never reaches \<open>get_clf\<close>.
\<close>

theorem missing_split_keys:
  "(BaseOptimizer_init ExtraTreesOptimizer [] = Inr et \<and> length individual = length (params et) \<longrightarrow>
      keys (params et) = [''max_features'', ''n_estimators'', ''max_depth'', ''max_samples''] \<and>
      ''min_samples_split'' \<notin> set (keys (params et)) \<and>
      ''min_samples_leaf'' \<notin> set (keys (params et)) \<and>
      (\<exists>d. individual2dict et individual = Inr d \<and>
           getitem d ''min_samples_split'' = Inl (KeyError ''min_samples_split'') \<and>
           getitem d ''min_samples_leaf'' = Inl (KeyError ''min_samples_leaf'')) \<and>
      get_clf et individual = Inl (KeyError ''min_samples_split'')) \<and>
   (cls gb = GradientBoostingOptimizer \<and>
      (keys (params gb) = [''max_features'', ''n_estimators'', ''max_depth'', ''max_samples''] \<or>
       keys (params gb) = [''max_features'', ''n_estimators'', ''max_depth'', ''max_samples'',
                           ''learning_rate'', ''subsample'']) \<and>
      length genes = length (params gb) \<longrightarrow>
      get_clf gb genes = Inl (KeyError ''min_samples_split'')) \<and>
   BaseOptimizer_init GradientBoostingOptimizer custom = Inl AttributeError"
proof -
  have "BaseOptimizer_init GradientBoostingOptimizer custom = Inl AttributeError"
    by (simp add: BaseOptimizer_init_def get_params_def
        GradientBoostingOptimizer_get_params_AttributeError)
  with ExtraTrees_get_clf_KeyError[of et individual]
    GradientBoostingOptimizer_get_clf_KeyError[of gb genes]
  show ?thesis by blast
qed

theorem missing_split_keys_witness:
  "BaseOptimizer_init ExtraTreesOptimizer [] =
     Inr \<lparr>cls = ExtraTreesOptimizer, custom_params = [], params = ForestOptimizer_get_default_params\<rparr> \<and>
   get_clf \<lparr>cls = ExtraTreesOptimizer, custom_params = [], params = ForestOptimizer_get_default_params\<rparr>
     [PInt 80, PInt 100, PInt 10, PInt 30] = Inl (KeyError ''min_samples_split'') \<and>
   get_clf
     \<lparr>cls = GradientBoostingOptimizer, custom_params = [],
        params = ForestOptimizer_get_default_params @
          [(''learning_rate'', Param_init ''learning_rate'' 1 10000 FloatType 1000000),
           (''subsample'', Param_init ''subsample'' 0 100 FloatType 100)]\<rparr>
     [PInt 80, PInt 100, PInt 10, PInt 30, PInt 5000, PInt 50] = Inl (KeyError ''min_samples_split'') \<and>
   BaseOptimizer_init GradientBoostingOptimizer [] = Inl AttributeError"
proof -
  let ?et = "\<lparr>cls = ExtraTreesOptimizer, custom_params = [], params = ForestOptimizer_get_default_params\<rparr>"
  let ?gb = "\<lparr>cls = GradientBoostingOptimizer, custom_params = [],
        params = ForestOptimizer_get_default_params @
          [(''learning_rate'', Param_init ''learning_rate'' 1 10000 FloatType 1000000),
           (''subsample'', Param_init ''subsample'' 0 100 FloatType 100)]\<rparr>"
  have init: "BaseOptimizer_init ExtraTreesOptimizer [] = Inr ?et"
    by (simp add: BaseOptimizer_init_def get_params_def BaseOptimizer_get_params_def keys_def
        ForestOptimizer_get_default_params_def getitem_def)
  have len: "length [PInt 80, PInt 100, PInt 10, PInt 30] = length (params ?et)"
    by (simp add: ForestOptimizer_get_default_params_def)
  have gbk: "keys (params ?gb) = [''max_features'', ''n_estimators'', ''max_depth'', ''max_samples'',
                           ''learning_rate'', ''subsample'']"
    by (simp add: keys_def ForestOptimizer_get_default_params_def)
  have gbl: "length [PInt 80, PInt 100, PInt 10, PInt 30, PInt 5000, PInt 50] = length (params ?gb)"
    by (simp add: ForestOptimizer_get_default_params_def)
  have gbc: "cls ?gb = GradientBoostingOptimizer" by simp
  from missing_split_keys[of ?et "[PInt 80, PInt 100, PInt 10, PInt 30]" ?gb
      "[PInt 80, PInt 100, PInt 10, PInt 30, PInt 5000, PInt 50]" "[]"]
    init len gbk gbl gbc
  show ?thesis by blast
qed

section \<open>init\_individual\<close>

lemma randint_bounds:
  "a \<le> b \<Longrightarrow> \<exists>g. randint a b r = Inr g \<and> a \<le> g \<and> g \<le> b"
proof -
  assume ab: "a \<le> b"
  then have pos: "0 < b - a + 1" by simp
  have "0 \<le> int r mod (b - a + 1)" and "int r mod (b - a + 1) < b - a + 1"
    using pos_mod_sign[OF pos] pos_mod_bound[OF pos] by blast+
  then have "a \<le> a + int r mod (b - a + 1)" and "a + int r mod (b - a + 1) \<le> b"
    by linarith+
  then show ?thesis using ab by (simp add: randint_def)
qed

lemma randint_reaches: "a \<le> n \<Longrightarrow> n \<le> b \<Longrightarrow> randint a b (nat (n - a)) = Inr n"
  by (simp add: randint_def)

lemma init_individual_loop_ok:
  "(\<forall>k \<in> set ks. \<exists>p. getitem table k = Inr p \<and> minValue p \<le> maxValue p) \<Longrightarrow>
   \<exists>gs. init_individual_loop table ks rng i ps = Inr (ps @ gs) \<and> length gs = length ks \<and>
     (\<forall>j < length ks. \<exists>p. getitem table (ks ! j) = Inr p \<and>
        minValue p \<le> gs ! j \<and> gs ! j \<le> maxValue p)"
proof (induction ks arbitrary: i ps)
  case Nil
  then show ?case by simp
next
  case (Cons k ks)
  from Cons.prems obtain p where p: "getitem table k = Inr p" and le: "minValue p \<le> maxValue p"
    by auto
  from randint_bounds[OF le, of "rng i"] obtain g where
    g: "randint (minValue p) (maxValue p) (rng i) = Inr g" and b: "minValue p \<le> g" "g \<le> maxValue p"
    by blast
  from Cons.prems have "\<forall>k \<in> set ks. \<exists>p. getitem table k = Inr p \<and> minValue p \<le> maxValue p"
    by simp
  from Cons.IH[OF this, of "Suc i" "ps @ [g]"] obtain gs where
    run: "init_individual_loop table ks rng (Suc i) (ps @ [g]) = Inr ((ps @ [g]) @ gs)"
    and len: "length gs = length ks"
    and bs: "\<forall>j < length ks. \<exists>p. getitem table (ks ! j) = Inr p \<and>
        minValue p \<le> gs ! j \<and> gs ! j \<le> maxValue p"
    by blast
  have "\<exists>q. getitem table ((k # ks) ! j) = Inr q \<and>
        minValue q \<le> (g # gs) ! j \<and> (g # gs) ! j \<le> maxValue q" if "j < length (k # ks)" for j
  proof (cases j)
    case 0
    then show ?thesis using p b by simp
  next
    case (Suc m)
    with that bs show ?thesis by simp
  qed
  then show ?case
    using p g run len by (intro exI[of _ "g # gs"]) simp
qed

lemma init_individual_loop_raises:
  "(\<forall>k \<in> set ks. \<exists>p. getitem table k = Inr p) \<Longrightarrow>
   (\<exists>k \<in> set ks. \<exists>p. getitem table k = Inr p \<and> maxValue p < minValue p) \<Longrightarrow>
   init_individual_loop table ks rng i ps = Inl ValueError"
proof (induction ks arbitrary: i ps)
  case Nil
  then show ?case by simp
next
  case (Cons k ks)
  from Cons.prems(1) obtain p where p: "getitem table k = Inr p" by auto
  show ?case
  proof (cases "maxValue p < minValue p")
    case True
    with p show ?thesis by (simp add: randint_def)
  next
    case False
    then have "minValue p \<le> maxValue p" by simp
    from randint_bounds[OF this, of "rng i"] obtain g where
      g: "randint (minValue p) (maxValue p) (rng i) = Inr g" by blast
    from Cons.prems(2) p False
    have bad: "\<exists>k \<in> set ks. \<exists>p. getitem table k = Inr p \<and> maxValue p < minValue p"
      by auto
    from Cons.prems(1) have all: "\<forall>k \<in> set ks. \<exists>p. getitem table k = Inr p" by simp
    from Cons.IH[OF all bad] p g show ?thesis by simp
  qed
qed

lemma init_individual_returns:
  assumes "distinct (keys (params self))"
    and "\<forall>(k, p) \<in> set (params self). minValue p \<le> maxValue p"
  shows "\<exists>ps. init_individual self pcls rng = Inr (pcls ps) \<and>
           length ps = length (params self) \<and>
           (\<forall>i < length (params self).
              minValue (snd (params self ! i)) \<le> ps ! i \<and>
              ps ! i \<le> maxValue (snd (params self ! i)) \<and>
              (minValue (snd (params self ! i)) = maxValue (snd (params self ! i)) \<longrightarrow>
                 ps ! i = minValue (snd (params self ! i))))"
proof -
  let ?t = "params self"
  have entry: "getitem ?t (keys ?t ! i) = Inr (snd (?t ! i))" if "i < length ?t" for i
  proof -
    from that have "(fst (?t ! i), snd (?t ! i)) \<in> set ?t" by simp
    with assms(1) have "map_of ?t (fst (?t ! i)) = Some (snd (?t ! i))"
      unfolding keys_def by (rule map_of_is_SomeI)
    with that show ?thesis by (simp add: getitem_def keys_def)
  qed
  have "\<forall>k \<in> set (keys ?t). \<exists>p. getitem ?t k = Inr p \<and> minValue p \<le> maxValue p"
  proof
    fix k assume "k \<in> set (keys ?t)"
    then obtain i where i: "i < length ?t" and k: "k = keys ?t ! i"
      by (auto simp: keys_def in_set_conv_nth)
    from i have "?t ! i \<in> set ?t" by simp
    with assms(2) have "minValue (snd (?t ! i)) \<le> maxValue (snd (?t ! i))"
      by (auto simp: case_prod_beta)
    with entry[OF i] k show "\<exists>p. getitem ?t k = Inr p \<and> minValue p \<le> maxValue p"
      by simp
  qed
  from init_individual_loop_ok[OF this, of rng 0 "[]"] obtain gs where
    run: "init_individual_loop ?t (keys ?t) rng 0 [] = Inr gs"
    and len: "length gs = length (keys ?t)"
    and bs: "\<forall>j < length (keys ?t). \<exists>p. getitem ?t (keys ?t ! j) = Inr p \<and>
        minValue p \<le> gs ! j \<and> gs ! j \<le> maxValue p"
    by auto
  have "minValue (snd (?t ! i)) \<le> gs ! i \<and> gs ! i \<le> maxValue (snd (?t ! i)) \<and>
      (minValue (snd (?t ! i)) = maxValue (snd (?t ! i)) \<longrightarrow> gs ! i = minValue (snd (?t ! i)))"
    if "i < length ?t" for i
    using bs[rule_format, of i] entry[OF that] that by (auto simp: keys_def)
  then show ?thesis
    using run len by (intro exI[of _ gs]) (simp add: init_individual_def keys_def)
qed

lemma init_individual_raises:
  assumes "distinct (keys (params self))"
    and "\<exists>(k, p) \<in> set (params self). maxValue p < minValue p"
  shows "init_individual self pcls rng = Inl ValueError"
proof -
  let ?t = "params self"
  have entry: "getitem ?t k = Inr p" if "(k, p) \<in> set ?t" for k p
    using map_of_is_SomeI[OF assms(1)[unfolded keys_def] that] by (simp add: getitem_def)
  have all: "\<forall>k \<in> set (keys ?t). \<exists>p. getitem ?t k = Inr p"
    using entry by (auto simp: keys_def)
  from assms(2) obtain k p where kp: "(k, p) \<in> set ?t" and bad: "maxValue p < minValue p"
    by auto
  from kp have "k \<in> set (keys ?t)" by (force simp: keys_def)
  with entry[OF kp] bad
  have "\<exists>k \<in> set (keys ?t). \<exists>p. getitem ?t k = Inr p \<and> maxValue p < minValue p"
    by blast
  from init_individual_loop_raises[OF all this] show ?thesis
    by (simp add: init_individual_def)
qed

text \<open>
  Claim C8, amended.  For a resolved table (a dictionary: its keys are distinct) and every
  state of the random generator: when every parameter has \<open>minValue \<le> maxValue\<close>,
  \<open>init_individual\<close> returns \<open>pcls\<close> of a list of integers as long as the table whose
  \<open>i\<close>-th element lies in the inclusive range of the \<open>i\<close>-th parameter, and when the
  bounds of a parameter are equal the gene is that value; when some parameter has
  \<open>minValue > maxValue\<close>, \<open>randint\<close> raises \<open>ValueError\<close> and no individual is returned.
\<close>

theorem init_individual_in_bounds:
  assumes "distinct (keys (params self))"
  shows "((\<forall>(k, p) \<in> set (params self). minValue p \<le> maxValue p) \<longrightarrow>
          (\<exists>ps. init_individual self pcls rng = Inr (pcls ps) \<and>
             length ps = length (params self) \<and>
             (\<forall>i < length (params self).
                minValue (snd (params self ! i)) \<le> ps ! i \<and>
                ps ! i \<le> maxValue (snd (params self ! i)) \<and>
                (minValue (snd (params self ! i)) = maxValue (snd (params self ! i)) \<longrightarrow>
                   ps ! i = minValue (snd (params self ! i)))))) \<and>
         ((\<exists>(k, p) \<in> set (params self). maxValue p < minValue p) \<longrightarrow>
          init_individual self pcls rng = Inl ValueError)"
  using init_individual_returns[OF assms, of pcls rng] init_individual_raises[OF assms, of pcls rng]
  by blast

theorem init_individual_in_bounds_witness:
  "(\<exists>ps. init_individual
          \<lparr>cls = SVCOptimizer,
             custom_params = [(''degree'', Param_init ''degree'' 3 3 IntType 100)],
             params = [(''C'', Param_init ''C'' 1 10000 FloatType 10),
                       (''degree'', Param_init ''degree'' 3 3 IntType 100),
                       (''gamma'', Param_init ''gamma'' 10 100000000 FloatType 100)]\<rparr>
          (map PInt) (constant_rng 12) = Inr (map PInt ps) \<and>
        length ps = 3 \<and> 1 \<le> ps ! 0 \<and> ps ! 0 \<le> 10000 \<and> ps ! 1 = 3 \<and>
        10 \<le> ps ! 2 \<and> ps ! 2 \<le> 100000000) \<and>
   init_individual
     \<lparr>cls = SVCOptimizer,
        custom_params = [(''degree'', Param_init ''degree'' 6 0 IntType 100)],
        params = [(''C'', Param_init ''C'' 1 10000 FloatType 10),
                  (''degree'', Param_init ''degree'' 6 0 IntType 100),
                  (''gamma'', Param_init ''gamma'' 10 100000000 FloatType 100)]\<rparr>
     (map PInt) (constant_rng 12) = Inl ValueError"
proof -
  let ?S = "\<lparr>cls = SVCOptimizer,
             custom_params = [(''degree'', Param_init ''degree'' 3 3 IntType 100)],
             params = [(''C'', Param_init ''C'' 1 10000 FloatType 10),
                       (''degree'', Param_init ''degree'' 3 3 IntType 100),
                       (''gamma'', Param_init ''gamma'' 10 100000000 FloatType 100)]\<rparr>"
  let ?B = "\<lparr>cls = SVCOptimizer,
        custom_params = [(''degree'', Param_init ''degree'' 6 0 IntType 100)],
        params = [(''C'', Param_init ''C'' 1 10000 FloatType 10),
                  (''degree'', Param_init ''degree'' 6 0 IntType 100),
                  (''gamma'', Param_init ''gamma'' 10 100000000 FloatType 100)]\<rparr>"
  have d: "distinct (keys (params ?S))"
    by (simp add: keys_def)
  have b: "\<forall>(k, p) \<in> set (params ?S). minValue p \<le> maxValue p"
    by (simp add: Param_init_def)
  from init_individual_in_bounds[OF d, of "map PInt" "constant_rng 12"] b obtain ps where
    run: "init_individual ?S (map PInt) (constant_rng 12) = Inr (map PInt ps)"
    and len: "length ps = length (params ?S)"
    and bs: "\<forall>i < length (params ?S).
              minValue (snd (params ?S ! i)) \<le> ps ! i \<and>
              ps ! i \<le> maxValue (snd (params ?S ! i)) \<and>
              (minValue (snd (params ?S ! i)) = maxValue (snd (params ?S ! i)) \<longrightarrow>
                 ps ! i = minValue (snd (params ?S ! i)))"
    by blast
  from bs[rule_format, of 0] bs[rule_format, of 1] bs[rule_format, of 2] len
  have "length ps = 3 \<and> 1 \<le> ps ! 0 \<and> ps ! 0 \<le> 10000 \<and> ps ! 1 = 3 \<and>
        10 \<le> ps ! 2 \<and> ps ! 2 \<le> 100000000"
    by (simp add: Param_init_def)
  with run have good: "\<exists>ps. init_individual ?S (map PInt) (constant_rng 12) = Inr (map PInt ps) \<and>
        length ps = 3 \<and> 1 \<le> ps ! 0 \<and> ps ! 0 \<le> 10000 \<and> ps ! 1 = 3 \<and>
        10 \<le> ps ! 2 \<and> ps ! 2 \<le> 100000000"
    by blast
  have d': "distinct (keys (params ?B))"
    by (simp add: keys_def)
  have b': "\<exists>(k, p) \<in> set (params ?B). maxValue p < minValue p"
    by (simp add: Param_init_def)
  from init_individual_in_bounds[OF d', of "map PInt" "constant_rng 12"] b'
  have "init_individual ?B (map PInt) (constant_rng 12) = Inl ValueError"
    by blast
  with good show ?thesis by blast
qed

text \<open>The claim as stated fails for a table with an empty range: \<open>randint\<close> raises
  \<open>ValueError\<close> and no individual is returned.\<close>

theorem init_individual_empty_range_raises:
  "BaseOptimizer_init SVCOptimizer [(''degree'', Param_init ''degree'' 6 0 IntType 100)] =
     Inr \<lparr>cls = SVCOptimizer,
           custom_params = [(''degree'', Param_init ''degree'' 6 0 IntType 100)],
           params = [(''C'', Param_init ''C'' 1 10000 FloatType 10),
                     (''degree'', Param_init ''degree'' 6 0 IntType 100),
                     (''gamma'', Param_init ''gamma'' 10 100000000 FloatType 100)]\<rparr> \<and>
   init_individual
     \<lparr>cls = SVCOptimizer,
        custom_params = [(''degree'', Param_init ''degree'' 6 0 IntType 100)],
        params = [(''C'', Param_init ''C'' 1 10000 FloatType 10),
                  (''degree'', Param_init ''degree'' 6 0 IntType 100),
                  (''gamma'', Param_init ''gamma'' 10 100000000 FloatType 100)]\<rparr>
     (map PInt) (constant_rng 0) = Inl ValueError"
  by (simp add: BaseOptimizer_init_def get_params_def BaseOptimizer_get_params_def keys_def
      SVCOptimizer_get_default_params_def getitem_def init_individual_def randint_def
      Param_init_def constant_rng_def)

section \<open>optimize\_clf\<close>

lemma get_clf_agree:
  assumes init: "BaseOptimizer_init c custom = Inr self"
    and a: "get_clf self a = Inr x" and b: "get_clf self b = Inr x"
  shows "take (length (params self)) a = take (length (params self)) b"
proof -
  note i = BaseOptimizer_init_Inr[OF init]
  show ?thesis
  proof (cases c)
    case TreeOptimizer
    with a b i(2) have a': "TreeOptimizer_get_clf self a = Inr x" and b': "TreeOptimizer_get_clf self b = Inr x"
      by (simp_all add: get_clf_def)
    show ?thesis
      by (rule build_agree[OF i(5) _ a'[unfolded TreeOptimizer_get_clf_def] b'[unfolded TreeOptimizer_get_clf_def]],
          unfold i(4) TreeOptimizer)
        (simp add: kw_keys_def keys_def TreeOptimizer_get_default_params_def)
  next
    case ForestOptimizer
    with a b i(2) have a': "ForestOptimizer_get_clf self a = Inr x" and b': "ForestOptimizer_get_clf self b = Inr x"
      by (simp_all add: get_clf_def)
    show ?thesis
      by (rule build_agree[OF i(5) _ a'[unfolded ForestOptimizer_get_clf_def] b'[unfolded ForestOptimizer_get_clf_def]],
          unfold i(4) ForestOptimizer)
        (simp add: kw_keys_def keys_def ForestOptimizer_get_default_params_def)
  next
    case ExtraTreesOptimizer
    have notin: "''min_samples_split'' \<notin> set (keys (params self))"
      unfolding i(4) using ExtraTreesOptimizer
      by (simp add: keys_def ForestOptimizer_get_default_params_def)
    from a i(2) ExtraTreesOptimizer have False
      unfolding get_clf_def ExtraTreesOptimizer_get_clf_def
      using build_missing[OF i(5) _ notin, of _ a "''ExtraTreesClassifier''" x]
      by (simp add: kw_keys_def)
    then show ?thesis ..
  next
    case GradientBoostingOptimizer
    with i(1) show ?thesis by simp
  next
    case XGBClassifierOptimizer
    with a b i(2) have a': "XGBClassifierOptimizer_get_clf self a = Inr x" and b': "XGBClassifierOptimizer_get_clf self b = Inr x"
      by (simp_all add: get_clf_def)
    show ?thesis
      by (rule build_agree[OF i(5) _ a'[unfolded XGBClassifierOptimizer_get_clf_def] b'[unfolded XGBClassifierOptimizer_get_clf_def]],
          unfold i(4) XGBClassifierOptimizer)
        (simp add: kw_keys_def keys_def XGBClassifierOptimizer_get_default_params_def)
  next
    case SVCOptimizer
    with a b i(2) have a': "SVCOptimizer_get_clf self a = Inr x" and b': "SVCOptimizer_get_clf self b = Inr x"
      by (simp_all add: get_clf_def)
    show ?thesis
      by (rule build_agree[OF i(5) _ a'[unfolded SVCOptimizer_get_clf_def] b'[unfolded SVCOptimizer_get_clf_def]],
          unfold i(4) SVCOptimizer)
        (simp add: kw_keys_def keys_def SVCOptimizer_get_default_params_def)
  next
    case MLPOptimizer
    with a b i(2) have a': "MLPOptimizer_get_clf self a = Inr x" and b': "MLPOptimizer_get_clf self b = Inr x"
      by (simp_all add: get_clf_def)
    show ?thesis
      by (rule build_agree[OF i(5) _ a'[unfolded MLPOptimizer_get_clf_def] b'[unfolded MLPOptimizer_get_clf_def]],
          unfold i(4) MLPOptimizer)
        (simp add: kw_keys_def keys_def MLPOptimizer_get_default_params_def)
  qed
qed

lemma corrected_individual_eq:
  assumes "get_corrected_clf self a h = (Inr c, h2)"
  shows "corrected_individual self a h = h2 ! length h"
    and "get_clf self (h2 ! length h) = Inr c"
    and "length (h2 ! length h) = length (h ! a)"
    and "\<And>j. length (params self) \<le> j \<Longrightarrow> h2 ! length h ! j = h ! a ! j"
proof -
  show "corrected_individual self a h = h2 ! length h"
    using assms by (simp add: corrected_individual_def)
  from get_corrected_clf_ok[OF assms]
  have loop: "correct_loop (params self) (keys (params self)) 0 (length h) (h @ [h ! a]) = (None, h2)"
    and clf: "get_clf self (h2 ! length h) = Inr c" by simp_all
  show "get_clf self (h2 ! length h) = Inr c" by (rule clf)
  have b: "length h < length (h @ [h ! a])" by simp
  from correct_loop_ok[OF b loop]
  show "length (h2 ! length h) = length (h ! a)"
    and "\<And>j. length (params self) \<le> j \<Longrightarrow> h2 ! length h ! j = h ! a ! j"
    by (simp_all add: keys_def)
qed

text \<open>
  Claim C4.  Whenever \<open>optimize_clf\<close> returns a classifier, it is \<open>get_clf\<close> of the raw
  genes of the first member of the Hall of Fame, with no \<open>correct\<close> applied; the fitness
  evaluation of the same individual hands \<open>KFoldStratifiedAccuracy\<close> the classifier that
  \<open>get_corrected_clf\<close> builds from the decoded copy.  If decoding changes any gene of the
  individual, the classifier returned differs from the classifier evaluated.  This holds
  for every optimizer that can be constructed, every toolkit run and every evaluator.
\<close>

theorem optimize_clf_returns_undecoded:
  assumes init: "BaseOptimizer_init c custom = Inr self"
    and evo: "evolve population generations (evaluate_clf KFoldStratifiedAccuracy self) h
                = (Inr (best # rest), h1)"
    and ret: "optimize_clf evolve KFoldStratifiedAccuracy self population generations h
                = (Inr clf_returned, h')"
    and ev: "get_corrected_clf self best h1 = (Inr clf_evaluated, h2)"
    and differ: "corrected_individual self best h1 \<noteq> h1 ! best"
  shows "get_clf self (h1 ! best) = Inr clf_returned \<and>
         get_clf self (corrected_individual self best h1) = Inr clf_evaluated \<and>
         evaluate_clf KFoldStratifiedAccuracy self best h1
           = (KFoldStratifiedAccuracy clf_evaluated, h2) \<and>
         clf_returned \<noteq> clf_evaluated"
proof -
  let ?raw = "h1 ! best"
  let ?dec = "corrected_individual self best h1"
  let ?n = "length (params self)"
  from ret evo have raw: "get_clf self ?raw = Inr clf_returned"
    by (auto simp: optimize_clf_def list_getitem_def split: option.splits)
  note ci = corrected_individual_eq[OF ev]
  have dec: "get_clf self ?dec = Inr clf_evaluated"
    using ci(1,2) by simp
  have len: "length ?dec = length ?raw"
    using ci(1,3) by simp
  have beyond: "?dec ! j = ?raw ! j" if "?n \<le> j" for j
    using ci(1) ci(4)[OF that] by simp
  have evl: "evaluate_clf KFoldStratifiedAccuracy self best h1
           = (KFoldStratifiedAccuracy clf_evaluated, h2)"
    using ev by (simp add: evaluate_clf_def)
  have "clf_returned \<noteq> clf_evaluated"
  proof
    assume "clf_returned = clf_evaluated"
    with raw dec have tk: "take ?n ?dec = take ?n ?raw"
      by (intro get_clf_agree[OF init]) simp_all
    have "?dec = ?raw"
    proof (rule nth_equalityI)
      show "length ?dec = length ?raw" by (rule len)
    next
      fix j assume "j < length ?dec"
      show "?dec ! j = ?raw ! j"
      proof (cases "j < ?n")
        case True
        then have "?dec ! j = take ?n ?dec ! j" and "?raw ! j = take ?n ?raw ! j" by simp_all
        with tk show ?thesis by simp
      next
        case False
        then show ?thesis using beyond[of j] by simp
      qed
    qed
    with differ show False by contradiction
  qed
  with raw dec evl show ?thesis by simp
qed

lemmas run_defs = optimize_clf_def evolve_fixed_def evaluate_clf_def get_corrected_clf_def
  copy_copy_def keys_def TreeOptimizer_get_default_params_def getitem_def list_getitem_def
  correct_defs Param_init_def get_clf_def TreeOptimizer_get_clf_def build_def individual2dict_def
  constant_accuracy_def

theorem optimize_clf_returns_undecoded_witness:
  "\<exists>clf_returned clf_evaluated.
     optimize_clf (evolve_fixed [0]) (constant_accuracy (9 / 10) (1 / 20))
       \<lparr>cls = TreeOptimizer, custom_params = [], params = TreeOptimizer_get_default_params\<rparr>
       10 3 [[PInt 10, PInt 5, PInt 20, PInt 150, PInt 300]]
       = (Inr clf_returned,
          [[PInt 10, PInt 5, PInt 20, PInt 150, PInt 300],
           [PInt 10, PInt 5, PInt 20, PFloat (3 / 20), PFloat (3 / 1000)]]) \<and>
     get_clf
       \<lparr>cls = TreeOptimizer, custom_params = [], params = TreeOptimizer_get_default_params\<rparr>
       [PInt 10, PInt 5, PInt 20, PInt 150, PInt 300] = Inr clf_returned \<and>
     get_clf
       \<lparr>cls = TreeOptimizer, custom_params = [], params = TreeOptimizer_get_default_params\<rparr>
       [PInt 10, PInt 5, PInt 20, PFloat (3 / 20), PFloat (3 / 1000)] = Inr clf_evaluated \<and>
     clf_returned \<noteq> clf_evaluated"
proof -
  let ?S = "\<lparr>cls = TreeOptimizer, custom_params = [], params = TreeOptimizer_get_default_params\<rparr>"
  let ?raw = "[PInt 10, PInt 5, PInt 20, PInt 150, PInt 300]"
  let ?dec = "[PInt 10, PInt 5, PInt 20, PFloat (3 / 20), PFloat (3 / 1000)]"
  let ?K = "constant_accuracy (9 / 10) (1 / 20)"
  have init: "BaseOptimizer_init TreeOptimizer [] = Inr ?S"
    by (simp add: BaseOptimizer_init_def get_params_def BaseOptimizer_get_params_def keys_def
        TreeOptimizer_get_default_params_def getitem_def)
  obtain clf_returned where r: "get_clf ?S ?raw = Inr clf_returned"
    by (simp add: run_defs)
  obtain clf_evaluated where e: "get_clf ?S ?dec = Inr clf_evaluated"
    by (simp add: run_defs)
  have c1: "get_corrected_clf ?S 0 [?raw] = (get_clf ?S ?dec, [?raw, ?dec])"
    by (simp add: get_corrected_clf_def copy_copy_def keys_def
        TreeOptimizer_get_default_params_def getitem_def list_getitem_def correct_defs
        Param_init_def)
  have evo: "evolve_fixed [0] 10 3 (evaluate_clf ?K ?S) [?raw] = (Inr [0], [?raw, ?dec])"
    by (simp add: evolve_fixed_def evaluate_clf_def c1 e constant_accuracy_def)
  have ret: "optimize_clf (evolve_fixed [0]) ?K ?S 10 3 [?raw] = (Inr clf_returned, [?raw, ?dec])"
    by (simp add: optimize_clf_def evo r list_getitem_def)
  have ev: "get_corrected_clf ?S 0 [?raw, ?dec] = (Inr clf_evaluated, [?raw, ?dec, ?dec])"
    using e
    by (simp add: get_corrected_clf_def copy_copy_def keys_def
        TreeOptimizer_get_default_params_def getitem_def list_getitem_def correct_defs
        Param_init_def)
  have differ: "corrected_individual ?S 0 [?raw, ?dec] \<noteq> [?raw, ?dec] ! 0"
    by (simp add: corrected_individual_def ev)
  from optimize_clf_returns_undecoded[OF init evo ret ev differ] ret r e
  show ?thesis by auto
qed

end
